theory Spec2Isabelle
  imports Complex_Main "HOL-Library.Multiset"
begin

section \<open>BVH accelerated ray tracer: a shallow embedding\<close>

text \<open>
  The development follows \<^verbatim>\<open>2026/03/03-01-BVH-Accelerated-Ray-Tracer/main.cpp\<close>.

  Scope of the model.
  \<^item> A C++ \<^verbatim>\<open>double\<close> is a \<^typ>\<open>real\<close>: arithmetic is exact. Rounding, overflow,
    infinities and NaN are not modelled. Where the source divides by a value that can be
    zero, IEEE arithmetic yields an infinity or NaN, which the reals do not have. For the
    direction components in the box test the model writes out what the source computes
    then; for the other divisions (the squared length of a direction, a radius, a box
    area, \<open>1 + ior\<close>) theorems whose computation passes through the division assume the
    divisor to be nonzero.
  \<^item> Functions that may read out of bounds, dereference a null pointer or recurse
    without end return an \<^typ>\<open>'a option\<close>; \<^term>\<open>None\<close> stands for "the source does
    not return a value here".
  \<^item> Sizes and positions in vectors are natural numbers; the \<^verbatim>\<open>int\<close> values the source
    stores in nodes and in the index vector are integers. Overflow of \<^verbatim>\<open>int\<close> (more
    than \<open>2^31 - 1\<close> nodes or tests) and exhaustion of the call stack are not modelled.
  \<^item> \<^verbatim>\<open>std::sort\<close> and \<^verbatim>\<open>std::partition\<close> leave the order among equivalent
    elements to the library. They are parameters of the model, constrained by what the
    C++ standard promises; the process-wide random generator is a parameter too (the
    sequence of its draws).
\<close>

subsection \<open>Vec3 and Ray\<close>

record Vec3 =
  x :: real
  y :: real
  z :: real

definition Vec3_new :: "real \<Rightarrow> real \<Rightarrow> real \<Rightarrow> Vec3" where
  "Vec3_new a b c = \<lparr>x = a, y = b, z = c\<rparr>"

definition Vec3_add :: "Vec3 \<Rightarrow> Vec3 \<Rightarrow> Vec3" where
  "Vec3_add u v = Vec3_new (x u + x v) (y u + y v) (z u + z v)"

definition Vec3_sub :: "Vec3 \<Rightarrow> Vec3 \<Rightarrow> Vec3" where
  "Vec3_sub u v = Vec3_new (x u - x v) (y u - y v) (z u - z v)"

definition Vec3_scale :: "Vec3 \<Rightarrow> real \<Rightarrow> Vec3" where
  \<comment> \<open>\<^verbatim>\<open>operator*(double)\<close>\<close>
  "Vec3_scale u k = Vec3_new (x u * k) (y u * k) (z u * k)"

definition Vec3_mul :: "Vec3 \<Rightarrow> Vec3 \<Rightarrow> Vec3" where
  \<comment> \<open>\<^verbatim>\<open>operator*(const Vec3&)\<close>, componentwise\<close>
  "Vec3_mul u v = Vec3_new (x u * x v) (y u * y v) (z u * z v)"

definition Vec3_div :: "Vec3 \<Rightarrow> real \<Rightarrow> Vec3" where
  "Vec3_div u k = Vec3_new (x u / k) (y u / k) (z u / k)"

definition Vec3_neg :: "Vec3 \<Rightarrow> Vec3" where
  "Vec3_neg u = Vec3_new (- x u) (- y u) (- z u)"

definition Vec3_dot :: "Vec3 \<Rightarrow> Vec3 \<Rightarrow> real" where
  "Vec3_dot u v = x u * x v + y u * y v + z u * z v"

definition Vec3_length :: "Vec3 \<Rightarrow> real" where
  "Vec3_length u = sqrt (x u * x u + y u * y u + z u * z u)"

definition Vec3_normalize :: "Vec3 \<Rightarrow> Vec3" where
  "Vec3_normalize u = Vec3_div u (Vec3_length u)"

definition Vec3_idx :: "Vec3 \<Rightarrow> nat \<Rightarrow> real" where
  \<comment> \<open>\<^verbatim>\<open>operator[]\<close>: \<^verbatim>\<open>(&x)[i]\<close>; the source only uses \<open>i\<close> in \<open>0..2\<close>\<close>
  "Vec3_idx u i = (if i = 0 then x u else if i = 1 then y u else z u)"

record Ray =
  origin :: Vec3
  direction :: Vec3

definition Ray_at :: "Ray \<Rightarrow> real \<Rightarrow> Vec3" where
  "Ray_at ray k = Vec3_add (origin ray) (Vec3_scale (direction ray) k)"

subsection \<open>AABB\<close>

record AABB =
  min_pt :: Vec3
  max_pt :: Vec3

definition AABB_empty :: AABB where
  \<comment> \<open>the default constructor \<^verbatim>\<open>AABB()\<close>\<close>
  "AABB_empty = \<lparr>min_pt = Vec3_new (10^30) (10^30) (10^30),
                  max_pt = Vec3_new (- (10^30)) (- (10^30)) (- (10^30))\<rparr>"

definition AABB_new :: "Vec3 \<Rightarrow> Vec3 \<Rightarrow> AABB" where
  "AABB_new a b = \<lparr>min_pt = a, max_pt = b\<rparr>"

definition AABB_merge :: "AABB \<Rightarrow> AABB \<Rightarrow> AABB" where
  "AABB_merge a b =
     (let small = Vec3_new (min (x (min_pt a)) (x (min_pt b)))
                           (min (y (min_pt a)) (y (min_pt b)))
                           (min (z (min_pt a)) (z (min_pt b)));
          large = Vec3_new (max (x (max_pt a)) (x (max_pt b)))
                           (max (y (max_pt a)) (y (max_pt b)))
                           (max (z (max_pt a)) (z (max_pt b)))
      in AABB_new small large)"

definition AABB_surface_area :: "AABB \<Rightarrow> real" where
  "AABB_surface_area b =
     (let d = Vec3_sub (max_pt b) (min_pt b)
      in 2 * (x d * y d + y d * z d + z d * x d))"

definition AABB_centroid :: "AABB \<Rightarrow> Vec3" where
  "AABB_centroid b = Vec3_scale (Vec3_add (min_pt b) (max_pt b)) (1 / 2)"

text \<open>
  \<^verbatim>\<open>AABB::intersect\<close>, the slab test: the loop over the axes \<open>i = 0, 1, 2\<close>, with the
  early \<^verbatim>\<open>return false\<close> inside the loop body.

  The source divides by the direction component without a guard. For a component that is
  zero, \<^verbatim>\<open>inv_d\<close> is an IEEE infinity, and \<^verbatim>\<open>t0\<close> and \<^verbatim>\<open>t1\<close> are each \<open>-\<infinity>\<close>, \<open>+\<infinity>\<close> or NaN
  (the product \<open>0 * \<infinity>\<close>, when the origin lies on the face). With \<^verbatim>\<open>std::max(t_min, t0)\<close>
  \<open>= (t_min < t0) ? t0 : t_min\<close> and \<^verbatim>\<open>std::min(t_max, t1)\<close> \<open>= (t1 < t_max) ? t1 : t_max\<close>,
  for finite \<^verbatim>\<open>t_min\<close>, \<^verbatim>\<open>t_max\<close> and box: an origin coordinate below \<^verbatim>\<open>min_pt[i]\<close> makes
  \<^verbatim>\<open>t_min\<close> \<open>+\<infinity>\<close>, one above \<^verbatim>\<open>max_pt[i]\<close> makes \<^verbatim>\<open>t_max\<close> \<open>-\<infinity>\<close>, and the test returns
  false; otherwise both comparisons are false and the interval stays as it is. The reals
  have no infinity, so the first branch below writes this case out.
\<close>

function AABB_intersect_from :: "AABB \<Rightarrow> Ray \<Rightarrow> nat \<Rightarrow> real \<Rightarrow> real \<Rightarrow> bool" where
  "AABB_intersect_from b ray i t_min t_max =
     (if i < 3 then
        (if Vec3_idx (direction ray) i = 0 then
           (if Vec3_idx (origin ray) i < Vec3_idx (min_pt b) i \<or>
               Vec3_idx (max_pt b) i < Vec3_idx (origin ray) i then False
            else if t_max \<le> t_min then False
            else AABB_intersect_from b ray (i + 1) t_min t_max)
         else
           (let inv_d = 1 / Vec3_idx (direction ray) i;
                t0 = (Vec3_idx (min_pt b) i - Vec3_idx (origin ray) i) * inv_d;
                t1 = (Vec3_idx (max_pt b) i - Vec3_idx (origin ray) i) * inv_d;
                t0' = (if inv_d < 0 then t1 else t0);
                t1' = (if inv_d < 0 then t0 else t1);
                t_min' = max t_min t0';
                t_max' = min t_max t1'
            in if t_max' \<le> t_min' then False
               else AABB_intersect_from b ray (i + 1) t_min' t_max'))
      else True)"
  by pat_completeness auto
termination
  by (relation "measure (\<lambda>(b, ray, i, t_min, t_max). 3 - i)") auto

declare AABB_intersect_from.simps [simp del]

definition AABB_intersect :: "AABB \<Rightarrow> Ray \<Rightarrow> real \<Rightarrow> real \<Rightarrow> bool" where
  "AABB_intersect b ray t_min t_max = AABB_intersect_from b ray 0 t_min t_max"

text \<open>Containment of one box in another, componentwise.\<close>

definition AABB_contains :: "AABB \<Rightarrow> AABB \<Rightarrow> bool" where
  "AABB_contains outer inner =
     (x (min_pt outer) \<le> x (min_pt inner) \<and> y (min_pt outer) \<le> y (min_pt inner) \<and>
      z (min_pt outer) \<le> z (min_pt inner) \<and> x (max_pt inner) \<le> x (max_pt outer) \<and>
      y (max_pt inner) \<le> y (max_pt outer) \<and> z (max_pt inner) \<le> z (max_pt outer))"

text \<open>
  The slab test in the words of the specification: per axis, the entry and exit
  parameters are computed with the reciprocal of the direction component and swapped when
  that component is negative; the interval after the first \<open>k\<close> axes is \<open>[t_min, t_max]\<close>
  shrunk by the entries and exits of those axes.
\<close>

definition slab_entry :: "AABB \<Rightarrow> Ray \<Rightarrow> nat \<Rightarrow> real" where
  "slab_entry b ray i =
     (let inv_d = 1 / Vec3_idx (direction ray) i;
          t0 = (Vec3_idx (min_pt b) i - Vec3_idx (origin ray) i) * inv_d;
          t1 = (Vec3_idx (max_pt b) i - Vec3_idx (origin ray) i) * inv_d
      in if Vec3_idx (direction ray) i < 0 then t1 else t0)"

definition slab_exit :: "AABB \<Rightarrow> Ray \<Rightarrow> nat \<Rightarrow> real" where
  "slab_exit b ray i =
     (let inv_d = 1 / Vec3_idx (direction ray) i;
          t0 = (Vec3_idx (min_pt b) i - Vec3_idx (origin ray) i) * inv_d;
          t1 = (Vec3_idx (max_pt b) i - Vec3_idx (origin ray) i) * inv_d
      in if Vec3_idx (direction ray) i < 0 then t0 else t1)"




subsection \<open>Material, HitRecord, Sphere\<close>

datatype MaterialType = DIFFUSE | METAL | GLASS

record Material =
  type :: MaterialType
  albedo :: Vec3
  roughness :: real
  ior :: real

definition Material_diffuse :: "Vec3 \<Rightarrow> Material" where
  "Material_diffuse color = \<lparr>type = DIFFUSE, albedo = color, roughness = 0, ior = 0\<rparr>"

definition Material_metal :: "Vec3 \<Rightarrow> real \<Rightarrow> Material" where
  "Material_metal color rough = \<lparr>type = METAL, albedo = color, roughness = rough, ior = 0\<rparr>"

definition Material_glass :: "real \<Rightarrow> Material" where
  "Material_glass i = \<lparr>type = GLASS, albedo = Vec3_new 1 1 1, roughness = 0, ior = i\<rparr>"

record HitRecord =
  point :: Vec3
  normal :: Vec3
  t :: real
  front_face :: bool
  mat :: Material

record Sphere =
  center :: Vec3
  radius :: real
  material :: Material

definition Sphere_bounding_box :: "Sphere \<Rightarrow> AABB" where
  "Sphere_bounding_box s =
     (let r_vec = Vec3_new (radius s) (radius s) (radius s)
      in AABB_new (Vec3_sub (center s) r_vec) (Vec3_add (center s) r_vec))"

text \<open>
  The end of \<^verbatim>\<open>Sphere::intersect\<close>, once the parameter of the hit is known: the record
  it fills (\<^verbatim>\<open>set_face_normal\<close> included).
\<close>

definition Sphere_hit_record :: "Sphere \<Rightarrow> Ray \<Rightarrow> real \<Rightarrow> HitRecord" where
  "Sphere_hit_record s ray k =
     (let p = Ray_at ray k;
          outward_normal = Vec3_div (Vec3_sub p (center s)) (radius s);
          ff = (Vec3_dot (direction ray) outward_normal < 0)
      in \<lparr>point = p,
          normal = (if ff then outward_normal else Vec3_neg outward_normal),
          t = k, front_face = ff, mat = material s\<rparr>)"

text \<open>\<^verbatim>\<open>Sphere::intersect\<close>: \<^term>\<open>None\<close> is \<^verbatim>\<open>return false\<close>, \<open>Some rec\<close> is a hit.\<close>

definition Sphere_intersect :: "Sphere \<Rightarrow> Ray \<Rightarrow> real \<Rightarrow> real \<Rightarrow> HitRecord option" where
  "Sphere_intersect s ray t_min t_max =
     (let oc = Vec3_sub (origin ray) (center s);
          a = Vec3_dot (direction ray) (direction ray);
          half_b = Vec3_dot oc (direction ray);
          c = Vec3_dot oc oc - radius s * radius s;
          discriminant = half_b * half_b - a * c
      in if discriminant < 0 then None
         else
           (let sqrt_d = sqrt discriminant;
                t1 = (- half_b - sqrt_d) / a
            in if t1 < t_min \<or> t1 > t_max then
                 (let t2 = (- half_b + sqrt_d) / a
                  in if t2 < t_min \<or> t2 > t_max then None
                     else Some (Sphere_hit_record s ray t2))
               else Some (Sphere_hit_record s ray t1)))"

subsection \<open>The library algorithms the builder calls\<close>

text \<open>
  \<^verbatim>\<open>std::sort(first, last, comp)\<close> and \<^verbatim>\<open>std::partition(first, last, pred)\<close> on a range of
  the index vector. What the standard promises of them: the range is permuted; after
  \<^verbatim>\<open>sort\<close> with the comparator \<open>f a < f b\<close> it is ordered by \<open>f\<close>; after \<^verbatim>\<open>partition\<close>
  the elements that satisfy the predicate come first, and the iterator returned points
  behind them.
\<close>

type_synonym sorter = "(int \<Rightarrow> int \<Rightarrow> bool) \<Rightarrow> int list \<Rightarrow> int list"
type_synonym partitioner = "(int \<Rightarrow> bool) \<Rightarrow> int list \<Rightarrow> int list"

definition std_sort_spec :: "sorter \<Rightarrow> bool" where
  "std_sort_spec srt =
     (\<forall>(f :: int \<Rightarrow> real) xs.
        mset (srt (\<lambda>a b. f a < f b) xs) = mset xs \<and>
        sorted (map f (srt (\<lambda>a b. f a < f b) xs)))"

definition std_partition_spec :: "partitioner \<Rightarrow> bool" where
  "std_partition_spec prt =
     (\<forall>P xs. mset (prt P xs) = mset xs \<and>
        list_all P (take (length (filter P xs)) (prt P xs)) \<and>
        list_all (\<lambda>a. \<not> P a) (drop (length (filter P xs)) (prt P xs)))"

text \<open>One implementation of each, to run the model: insertion sort and a stable partition.\<close>

fun insert_by :: "(int \<Rightarrow> int \<Rightarrow> bool) \<Rightarrow> int \<Rightarrow> int list \<Rightarrow> int list" where
  "insert_by cmp a [] = [a]"
| "insert_by cmp a (b # bs) = (if cmp b a then b # insert_by cmp a bs else a # b # bs)"

fun insertion_sort :: sorter where
  "insertion_sort cmp [] = []"
| "insertion_sort cmp (a # as) = insert_by cmp a (insertion_sort cmp as)"

definition stable_partition :: partitioner where
  "stable_partition P xs = filter P xs @ filter (\<lambda>a. \<not> P a) xs"

text \<open>A range \<open>[a, b)\<close> of a vector, and the vector with that range replaced.\<close>

definition slice :: "'a list \<Rightarrow> nat \<Rightarrow> nat \<Rightarrow> 'a list" where
  "slice xs a b = take (b - a) (drop a xs)"

definition replace_slice :: "'a list \<Rightarrow> nat \<Rightarrow> nat \<Rightarrow> 'a list \<Rightarrow> 'a list" where
  "replace_slice xs a b ys = take a xs @ ys @ drop b xs"

subsection \<open>BVH nodes and the SAH split\<close>

record BVHNode =
  bbox :: AABB
  left :: int
  right :: int
  sphere_idx :: int
  is_leaf :: bool

definition BVHNode_new :: BVHNode where
  \<comment> \<open>the constructor \<^verbatim>\<open>BVHNode()\<close>; the box is default-constructed\<close>
  "BVHNode_new = \<lparr>bbox = AABB_empty, left = - 1, right = - 1, sphere_idx = - 1, is_leaf = False\<rparr>"

record Bucket =
  bucket_bbox :: AABB
  bucket_count :: int

definition Bucket_new :: Bucket where
  "Bucket_new = \<lparr>bucket_bbox = AABB_empty, bucket_count = 0\<rparr>"

definition NUM_BUCKETS :: nat where
  "NUM_BUCKETS = 12"

definition to_int :: "real \<Rightarrow> int option" where
  \<comment> \<open>the cast \<^verbatim>\<open>(int)v\<close>: truncation toward zero, undefined outside the range of \<^verbatim>\<open>int\<close>\<close>
  "to_int v =
     (let k = (if 0 \<le> v then \<lfloor>v\<rfloor> else \<lceil>v\<rceil>)
      in if - 2147483648 \<le> k \<and> k \<le> 2147483647 then Some k else None)"

text \<open>
  The loop that puts the spheres of the range into buckets. \<^term>\<open>None\<close>: the cast is
  undefined or the bucket index is negative (a write before the array).
\<close>

fun fill_buckets ::
  "Sphere list \<Rightarrow> nat \<Rightarrow> AABB \<Rightarrow> real \<Rightarrow> int list \<Rightarrow> Bucket list \<Rightarrow> Bucket list option" where
  "fill_buckets spheres axis centroid_bbox extent [] buckets = Some buckets"
| "fill_buckets spheres axis centroid_bbox extent (idx # rest) buckets =
     (let c = Vec3_idx (center (spheres ! nat idx)) axis
      in case to_int (real NUM_BUCKETS * (c - Vec3_idx (min_pt centroid_bbox) axis) / extent) of
           None \<Rightarrow> None
         | Some b0 \<Rightarrow>
             (let b = (if b0 \<ge> int NUM_BUCKETS then int NUM_BUCKETS - 1 else b0)
              in if b < 0 then None
                 else fill_buckets spheres axis centroid_bbox extent rest
                        (buckets[nat b :=
                           \<lparr>bucket_bbox = AABB_merge (bucket_bbox (buckets ! nat b))
                                            (Sphere_bounding_box (spheres ! nat idx)),
                            bucket_count = bucket_count (buckets ! nat b) + 1\<rparr>])))"

definition split_cost :: "Bucket list \<Rightarrow> nat \<Rightarrow> real" where
  \<comment> \<open>\<^verbatim>\<open>costs[i]\<close>\<close>
  "split_cost buckets i =
     (let b0 = foldl AABB_merge AABB_empty (map bucket_bbox (take (i + 1) buckets));
          cnt0 = sum_list (map bucket_count (take (i + 1) buckets));
          b1 = foldl AABB_merge AABB_empty (map bucket_bbox (drop (i + 1) buckets));
          cnt1 = sum_list (map bucket_count (drop (i + 1) buckets))
      in 1 / 8 + (of_int cnt0 * AABB_surface_area b0 + of_int cnt1 * AABB_surface_area b1) /
                 AABB_surface_area (AABB_merge b0 b1))"

definition min_cost_bucket :: "real list \<Rightarrow> nat" where
  \<comment> \<open>the loop that finds \<^verbatim>\<open>min_bucket\<close>\<close>
  "min_cost_bucket costs =
     fst (foldl (\<lambda>(min_bucket, min_cost) i.
                   if costs ! i < min_cost then (i, costs ! i) else (min_bucket, min_cost))
                (0, costs ! 0) [1 ..< NUM_BUCKETS - 1])"

definition sah_split_val :: "Sphere list \<Rightarrow> int list \<Rightarrow> nat \<Rightarrow> AABB \<Rightarrow> real option" where
  \<comment> \<open>\<^verbatim>\<open>split_val\<close>, from the buckets of the range, given as the list \<open>elems\<close> of its elements\<close>
  "sah_split_val spheres elems axis centroid_bbox =
     (let extent = Vec3_idx (max_pt centroid_bbox) axis - Vec3_idx (min_pt centroid_bbox) axis
      in case fill_buckets spheres axis centroid_bbox extent elems (replicate NUM_BUCKETS Bucket_new) of
           None \<Rightarrow> None
         | Some buckets \<Rightarrow>
             (let costs = map (split_cost buckets) [0 ..< NUM_BUCKETS - 1];
                  min_bucket = min_cost_bucket costs
              in Some (Vec3_idx (min_pt centroid_bbox) axis +
                       (real min_bucket + 1) * extent / real NUM_BUCKETS)))"

text \<open>
  \<^verbatim>\<open>BVH::sah_split\<close>: the index vector after the call and \<^verbatim>\<open>mid\<close>. Called with
  \<open>start \<le> end \<le> length indices\<close> and elements of the range that index \<open>spheres\<close>.
\<close>

definition BVH_sah_split ::
  "sorter \<Rightarrow> partitioner \<Rightarrow> Sphere list \<Rightarrow> int list \<Rightarrow> nat \<Rightarrow> nat \<Rightarrow> nat \<Rightarrow> AABB
     \<Rightarrow> (int list \<times> nat) option" where
  "BVH_sah_split srt prt spheres indices start end axis centroid_bbox =
     (let count = end - start
      in if count \<le> 4 then
           Some (replace_slice indices start end
                   (srt (\<lambda>a b. Vec3_idx (center (spheres ! nat a)) axis
                                < Vec3_idx (center (spheres ! nat b)) axis)
                        (slice indices start end)),
                 start + count div 2)
         else
           (let extent = Vec3_idx (max_pt centroid_bbox) axis - Vec3_idx (min_pt centroid_bbox) axis
            in if extent < 1 / 10 ^ 10 then Some (indices, start + count div 2)
               else
                 (case sah_split_val spheres (slice indices start end) axis centroid_bbox of
                    None \<Rightarrow> None
                  | Some split_val \<Rightarrow>
                      (let pred = (\<lambda>idx. Vec3_idx (center (spheres ! nat idx)) axis < split_val);
                           indices' = replace_slice indices start end
                                        (prt pred (slice indices start end));
                           mid = start + length (filter pred (slice indices start end))
                       in Some (indices',
                                if mid = start \<or> mid = end then start + count div 2 else mid)))))"

text \<open>The split index lies strictly inside a range of two or more elements.\<close>

lemma BVH_sah_split_mid:
  assumes "BVH_sah_split srt prt spheres indices start end axis cb = Some (indices', mid)"
    and "start + 2 \<le> end"
  shows "start < mid \<and> mid < end"
proof (cases "end - start \<le> 4")
  case True
  with assms show ?thesis
    by (auto simp: BVH_sah_split_def Let_def)
next
  case False
  show ?thesis
  proof (cases "Vec3_idx (max_pt cb) axis - Vec3_idx (min_pt cb) axis < 1 / 10 ^ 10")
    case True
    with assms \<open>\<not> end - start \<le> 4\<close> show ?thesis
      by (auto simp: BVH_sah_split_def Let_def)
  next
    case far: False
    from assms False far obtain split_val where
      mid: "mid = (let m = start + length (filter (\<lambda>idx. Vec3_idx (center (spheres ! nat idx)) axis < split_val)
                                  (slice indices start end))
                   in if m = start \<or> m = end then start + (end - start) div 2 else m)"
      by (auto simp: BVH_sah_split_def Let_def split: option.splits)
    have "length (filter (\<lambda>idx. Vec3_idx (center (spheres ! nat idx)) axis < split_val)
            (slice indices start end)) \<le> end - start"
      by (rule order_trans [OF length_filter_le]) (simp add: slice_def)
    with mid assms(2) show ?thesis
      by (auto simp: Let_def split: if_splits)
  qed
qed

subsection \<open>BVH construction\<close>

text \<open>
  The loop of \<^verbatim>\<open>BVH::build\<close> that bounds the sphere centres of the range, and the choice
  of the split axis that follows it.
\<close>

fun centroid_bounds :: "Sphere list \<Rightarrow> int list \<Rightarrow> AABB \<Rightarrow> AABB" where
  "centroid_bounds spheres [] centroid_bbox = centroid_bbox"
| "centroid_bounds spheres (idx # rest) centroid_bbox =
     (let c = center (spheres ! nat idx)
      in centroid_bounds spheres rest
           \<lparr>min_pt = Vec3_new (min (x (min_pt centroid_bbox)) (x c))
                               (min (y (min_pt centroid_bbox)) (y c))
                               (min (z (min_pt centroid_bbox)) (z c)),
            max_pt = Vec3_new (max (x (max_pt centroid_bbox)) (x c))
                               (max (y (max_pt centroid_bbox)) (y c))
                               (max (z (max_pt centroid_bbox)) (z c))\<rparr>)"

definition split_axis :: "AABB \<Rightarrow> nat" where
  "split_axis centroid_bbox =
     (let extent = Vec3_sub (max_pt centroid_bbox) (min_pt centroid_bbox);
          axis = (if y extent > x extent then 1 else 0)
      in if z extent > Vec3_idx extent axis then 2 else axis)"

text \<open>
  \<^verbatim>\<open>BVH::build\<close>. The state is the node arena and the index vector; the result is the
  state after the call and the index of the node built. \<^term>\<open>None\<close>: an empty or
  reversed range (the source recurses without end), or a read outside \<open>indices\<close> or
  \<open>spheres\<close>.
\<close>

function BVH_build ::
  "sorter \<Rightarrow> partitioner \<Rightarrow> Sphere list \<Rightarrow> BVHNode list \<times> int list \<Rightarrow> nat \<Rightarrow> nat
     \<Rightarrow> ((BVHNode list \<times> int list) \<times> nat) option" where
  "BVH_build srt prt spheres st start end =
     (let nodes = fst st; indices = snd st
      in if end \<le> start then None
         else if length indices < end \<or>
                 \<not> list_all (\<lambda>k. 0 \<le> k \<and> nat k < length spheres) (slice indices start end)
         then None
         else
           (let node_idx = length nodes;
                nodes = nodes @ [BVHNode_new];
                count = end - start
            in if count = 1 then
                 Some ((nodes[node_idx := (nodes ! node_idx)
                          \<lparr>is_leaf := True, sphere_idx := indices ! start,
                           bbox := Sphere_bounding_box (spheres ! nat (indices ! start))\<rparr>],
                        indices), node_idx)
               else
                 (let centroid_bbox = centroid_bounds spheres (slice indices start end) AABB_empty;
                      axis = split_axis centroid_bbox
                  in case BVH_sah_split srt prt spheres indices start end axis centroid_bbox of
                       None \<Rightarrow> None
                     | Some (indices, mid) \<Rightarrow>
                         (case BVH_build srt prt spheres (nodes, indices) start mid of
                            None \<Rightarrow> None
                          | Some ((nodes, indices), left_child) \<Rightarrow>
                              (case BVH_build srt prt spheres (nodes, indices) mid end of
                                 None \<Rightarrow> None
                               | Some ((nodes, indices), right_child) \<Rightarrow>
                                   Some ((nodes[node_idx := (nodes ! node_idx)
                                            \<lparr>left := int left_child, right := int right_child,
                                             is_leaf := False,
                                             bbox := AABB_merge (bbox (nodes ! left_child))
                                                                (bbox (nodes ! right_child))\<rparr>],
                                          indices), node_idx))))))"
  by pat_completeness auto
termination
proof (relation "measure (\<lambda>(srt, prt, spheres, st, start, end). end - start)", goal_cases)
  case 1
  show ?case by simp
next
  case (2 srt prt spheres st start "end" nodes indices node_idx nodes' count cb axis r indices' mid)
  then have "start + 2 \<le> end" by auto
  with 2 show ?case
    using BVH_sah_split_mid [of srt prt spheres indices start "end" axis cb indices' mid]
    by auto
next
  case (3 srt prt spheres st start "end" nodes indices node_idx nodes' count cb axis r indices' mid)
  then have "start + 2 \<le> end" by auto
  with 3 show ?case
    using BVH_sah_split_mid [of srt prt spheres indices start "end" axis cb indices' mid]
    by auto
qed

declare BVH_build.simps [simp del]

text \<open>
  The class \<^verbatim>\<open>BVH\<close>. Its member \<^verbatim>\<open>spheres\<close> is a reference to the vector of the scene;
  the functions below take that vector as an argument.
\<close>

record BVH =
  nodes :: "BVHNode list"
  bvh_intersection_tests :: int

definition BVH_new :: "sorter \<Rightarrow> partitioner \<Rightarrow> Sphere list \<Rightarrow> BVH option" where
  "BVH_new srt prt spheres =
     (if spheres = [] then Some \<lparr>nodes = [], bvh_intersection_tests = 0\<rparr>
      else
        (let indices = map int [0 ..< length spheres]
         in case BVH_build srt prt spheres ([], indices) 0 (length indices) of
              None \<Rightarrow> None
            | Some ((nodes', indices'), root_idx) \<Rightarrow>
                Some \<lparr>nodes = nodes', bvh_intersection_tests = 0\<rparr>))"

text \<open>
  \<^verbatim>\<open>BVH::intersect_node\<close>: the hit (or \<^term>\<open>None\<close> for \<^verbatim>\<open>return false\<close>) and the
  counter \<^verbatim>\<open>tests\<close>. The outer \<^term>\<open>None\<close>: a node or sphere index outside its
  vector, or a recursion that does not end (an arena whose child indices form a cycle).
\<close>

partial_function (option) BVH_intersect_node ::
  "Sphere list \<Rightarrow> BVHNode list \<Rightarrow> int \<Rightarrow> Ray \<Rightarrow> real \<Rightarrow> real \<Rightarrow> int
     \<Rightarrow> (HitRecord option \<times> int) option" where
  "BVH_intersect_node spheres nds node_idx ray t_min t_max tests =
     (if node_idx < 0 \<or> int (length nds) \<le> node_idx then None
      else
        (let node = nds ! nat node_idx;
             tests = tests + 1
         in if \<not> AABB_intersect (bbox node) ray t_min t_max then Some (None, tests)
            else if is_leaf node then
              (if sphere_idx node < 0 \<or> int (length spheres) \<le> sphere_idx node then None
               else Some (Sphere_intersect (spheres ! nat (sphere_idx node)) ray t_min t_max, tests))
            else
              Option.bind
                (if left node \<ge> 0
                 then BVH_intersect_node spheres nds (left node) ray t_min t_max tests
                 else Some (None, tests))
                (\<lambda>l.
                   (let hit_left = fst l;
                        t_closest = (case hit_left of Some rec_left \<Rightarrow> t rec_left | None \<Rightarrow> t_max)
                    in Option.bind
                         (if right node \<ge> 0
                          then BVH_intersect_node spheres nds (right node) ray t_min t_closest (snd l)
                          else Some (None, snd l))
                         (\<lambda>r. Some (case fst r of Some rec_right \<Rightarrow> Some rec_right
                                                  | None \<Rightarrow> hit_left, snd r))))))"

definition BVH_intersect ::
  "BVH \<Rightarrow> Sphere list \<Rightarrow> Ray \<Rightarrow> real \<Rightarrow> real \<Rightarrow> int \<Rightarrow> (HitRecord option \<times> int) option" where
  "BVH_intersect bvh spheres ray t_min t_max tests =
     (if nodes bvh = [] then Some (None, tests)
      else BVH_intersect_node spheres (nodes bvh) 0 ray t_min t_max tests)"


subsection \<open>Scene\<close>

text \<open>
  The struct \<^verbatim>\<open>Scene\<close>, with its members \<^verbatim>\<open>spheres\<close> and \<^verbatim>\<open>bvh\<close>; the pointer \<^verbatim>\<open>bvh\<close> is
  null (\<^term>\<open>None\<close>) until \<^verbatim>\<open>build_bvh\<close> runs.
\<close>

record Scene =
  scene_spheres :: "Sphere list"
  scene_bvh :: "BVH option"

definition Scene_build_bvh :: "sorter \<Rightarrow> partitioner \<Rightarrow> Scene \<Rightarrow> Scene option" where
  "Scene_build_bvh srt prt scene =
     (case BVH_new srt prt (scene_spheres scene) of
        None \<Rightarrow> None
      | Some b \<Rightarrow> Some (scene\<lparr>scene_bvh := Some b\<rparr>))"

fun intersect_brute_from ::
  "Sphere list \<Rightarrow> Ray \<Rightarrow> real \<Rightarrow> real \<Rightarrow> HitRecord option \<Rightarrow> HitRecord option" where
  "intersect_brute_from [] ray t_min closest rec = rec"
| "intersect_brute_from (sphere # rest) ray t_min closest rec =
     (case Sphere_intersect sphere ray t_min closest of
        Some tmp \<Rightarrow> intersect_brute_from rest ray t_min (t tmp) (Some tmp)
      | None \<Rightarrow> intersect_brute_from rest ray t_min closest rec)"

definition Scene_intersect_brute :: "Scene \<Rightarrow> Ray \<Rightarrow> real \<Rightarrow> real \<Rightarrow> HitRecord option" where
  "Scene_intersect_brute scene ray t_min t_max =
     intersect_brute_from (scene_spheres scene) ray t_min t_max None"

definition Scene_intersect_bvh ::
  "Scene \<Rightarrow> Ray \<Rightarrow> real \<Rightarrow> real \<Rightarrow> int \<Rightarrow> (HitRecord option \<times> int) option" where
  "Scene_intersect_bvh scene ray t_min t_max tests =
     (case scene_bvh scene of
        None \<Rightarrow> None
      | Some b \<Rightarrow> BVH_intersect b (scene_spheres scene) ray t_min t_max tests)"

subsection \<open>Random numbers, reflection, refraction\<close>

text \<open>
  The generator \<^verbatim>\<open>rng\<close> with the distribution \<^verbatim>\<open>dist\<close> is the sequence \<open>draws\<close> of the
  numbers it will return; the state is the position \<open>pos\<close> in it. The three arguments of
  the constructor call in \<^verbatim>\<open>rand_in_unit_sphere\<close> are drawn from left to right. The
  rejection loop may not end: \<^term>\<open>None\<close>.
\<close>

definition rand01 :: "(nat \<Rightarrow> real) \<Rightarrow> nat \<Rightarrow> real \<times> nat" where
  "rand01 draws pos = (draws pos, pos + 1)"

definition rand_range :: "(nat \<Rightarrow> real) \<Rightarrow> real \<Rightarrow> real \<Rightarrow> nat \<Rightarrow> real \<times> nat" where
  "rand_range draws a b pos = (a + (b - a) * fst (rand01 draws pos), snd (rand01 draws pos))"

partial_function (option) rand_in_unit_sphere :: "(nat \<Rightarrow> real) \<Rightarrow> nat \<Rightarrow> (Vec3 \<times> nat) option" where
  "rand_in_unit_sphere draws pos =
     (let rx = rand_range draws (- 1) 1 pos;
          ry = rand_range draws (- 1) 1 (snd rx);
          rz = rand_range draws (- 1) 1 (snd ry);
          p = Vec3_new (fst rx) (fst ry) (fst rz)
      in if Vec3_dot p p < 1 then Some (p, snd rz)
         else rand_in_unit_sphere draws (snd rz))"

definition rand_unit_vec :: "(nat \<Rightarrow> real) \<Rightarrow> nat \<Rightarrow> (Vec3 \<times> nat) option" where
  "rand_unit_vec draws pos =
     (case rand_in_unit_sphere draws pos of
        None \<Rightarrow> None
      | Some (p, pos') \<Rightarrow> Some (Vec3_normalize p, pos'))"

definition reflect :: "Vec3 \<Rightarrow> Vec3 \<Rightarrow> Vec3" where
  "reflect v n = Vec3_sub v (Vec3_scale n (2 * Vec3_dot v n))"

definition refract :: "Vec3 \<Rightarrow> Vec3 \<Rightarrow> real \<Rightarrow> Vec3" where
  "refract uv n etai_over_etat =
     (let cos_theta = min (Vec3_dot (Vec3_neg uv) n) 1;
          r_out_perp = Vec3_scale (Vec3_add uv (Vec3_scale n cos_theta)) etai_over_etat;
          r_out_parallel = Vec3_scale n (- sqrt \<bar>1 - Vec3_dot r_out_perp r_out_perp\<bar>)
      in Vec3_add r_out_perp r_out_parallel)"

definition schlick :: "real \<Rightarrow> real \<Rightarrow> real" where
  "schlick cosine i =
     (let r0 = (1 - i) / (1 + i);
          r0' = r0 * r0
      in r0' + (1 - r0') * (1 - cosine) ^ 5)"

subsection \<open>Path tracing\<close>

text \<open>
  \<^verbatim>\<open>ray_color\<close>. The state is the position in the random sequence and the counter
  \<^verbatim>\<open>total_tests\<close>. The branch of \<^verbatim>\<open>ray_color\<close> for each material is a definition of its
  own (\<open>scatter_diffuse\<close>, \<open>scatter_metal\<close>, \<open>scatter_glass\<close>): the attenuation and the
  scattered ray, or \<^term>\<open>None\<close> where the source returns black at once.
\<close>

definition sky_color :: "Ray \<Rightarrow> Vec3" where
  "sky_color ray =
     (let unit_dir = Vec3_normalize (direction ray);
          k = 1 / 2 * (y unit_dir + 1)
      in Vec3_add (Vec3_scale (Vec3_new 1 1 1) (1 - k)) (Vec3_scale (Vec3_new (1 / 2) (7 / 10) 1) k))"

definition scatter_diffuse ::
  "(nat \<Rightarrow> real) \<Rightarrow> Ray \<Rightarrow> HitRecord \<Rightarrow> nat \<Rightarrow> ((Vec3 \<times> Ray) option \<times> nat) option" where
  "scatter_diffuse draws ray rec pos =
     (case rand_unit_vec draws pos of
        None \<Rightarrow> None
      | Some (u, pos') \<Rightarrow>
          (let scatter_dir = Vec3_add (normal rec) u;
               scatter_dir' = (if Vec3_dot scatter_dir scatter_dir < 1 / 10 ^ 8
                               then normal rec else scatter_dir)
           in Some (Some (albedo (mat rec),
                          \<lparr>origin = point rec, direction = Vec3_normalize scatter_dir'\<rparr>), pos')))"

definition scatter_metal ::
  "(nat \<Rightarrow> real) \<Rightarrow> Ray \<Rightarrow> HitRecord \<Rightarrow> nat \<Rightarrow> ((Vec3 \<times> Ray) option \<times> nat) option" where
  "scatter_metal draws ray rec pos =
     (let reflected = reflect (Vec3_normalize (direction ray)) (normal rec)
      in case rand_in_unit_sphere draws pos of
           None \<Rightarrow> None
         | Some (p, pos') \<Rightarrow>
             (let scattered = \<lparr>origin = point rec,
                               direction = Vec3_add reflected (Vec3_scale p (roughness (mat rec)))\<rparr>
              in if Vec3_dot (direction scattered) (normal rec) \<le> 0 then Some (None, pos')
                 else Some (Some (albedo (mat rec), scattered), pos')))"

definition scatter_glass ::
  "(nat \<Rightarrow> real) \<Rightarrow> Ray \<Rightarrow> HitRecord \<Rightarrow> nat \<Rightarrow> ((Vec3 \<times> Ray) option \<times> nat) option" where
  "scatter_glass draws ray rec pos =
     (let attenuation = Vec3_new 1 1 1;
          ratio = (if front_face rec then 1 / ior (mat rec) else ior (mat rec));
          unit_dir = Vec3_normalize (direction ray);
          cos_theta = min (Vec3_dot (Vec3_neg unit_dir) (normal rec)) 1;
          sin_theta = sqrt (1 - cos_theta * cos_theta);
          cannot_refract = (ratio * sin_theta > 1)
      in if cannot_refract then
           Some (Some (attenuation, \<lparr>origin = point rec, direction = reflect unit_dir (normal rec)\<rparr>), pos)
         else
           (let d = rand01 draws pos
            in if schlick cos_theta ratio > fst d then
                 Some (Some (attenuation,
                             \<lparr>origin = point rec, direction = reflect unit_dir (normal rec)\<rparr>), snd d)
               else
                 Some (Some (attenuation,
                             \<lparr>origin = point rec, direction = refract unit_dir (normal rec) ratio\<rparr>),
                       snd d)))"

definition scatter ::
  "(nat \<Rightarrow> real) \<Rightarrow> Ray \<Rightarrow> HitRecord \<Rightarrow> nat \<Rightarrow> ((Vec3 \<times> Ray) option \<times> nat) option" where
  "scatter draws ray rec pos =
     (if type (mat rec) = DIFFUSE then scatter_diffuse draws ray rec pos
      else if type (mat rec) = METAL then scatter_metal draws ray rec pos
      else scatter_glass draws ray rec pos)"

function ray_color ::
  "(nat \<Rightarrow> real) \<Rightarrow> Ray \<Rightarrow> Scene \<Rightarrow> int \<Rightarrow> bool \<Rightarrow> nat \<times> int \<Rightarrow> (Vec3 \<times> nat \<times> int) option" where
  "ray_color draws ray scene depth use_bvh st =
     (if depth \<le> 0 then Some (Vec3_new 0 0 0, st)
      else
        (case (if use_bvh then Scene_intersect_bvh scene ray (1 / 1000) (10 ^ 10) 0
               else Some (Scene_intersect_brute scene ray (1 / 1000) (10 ^ 10), 0)) of
           None \<Rightarrow> None
         | Some (hit, tests) \<Rightarrow>
             (let total_tests = snd st + tests
              in case hit of
                   None \<Rightarrow> Some (sky_color ray, (fst st, total_tests))
                 | Some rec \<Rightarrow>
                     (case scatter draws ray rec (fst st) of
                        None \<Rightarrow> None
                      | Some (None, pos) \<Rightarrow> Some (Vec3_new 0 0 0, (pos, total_tests))
                      | Some (Some (attenuation, scattered), pos) \<Rightarrow>
                          (case ray_color draws scattered scene (depth - 1) use_bvh (pos, total_tests) of
                             None \<Rightarrow> None
                           | Some (c, st') \<Rightarrow> Some (Vec3_mul attenuation c, st'))))))"
  by pat_completeness auto
termination
  by (relation "measure (\<lambda>(draws, ray, scene, depth, use_bvh, st). nat depth)") auto

declare ray_color.simps [simp del]

section \<open>Auxiliary definitions for the proofs\<close>

subsection \<open>One axis of the slab test\<close>

text \<open>
  The interval after the axis \<open>i\<close>, and whether the origin lies within the slab of an axis
  along which the ray does not move.
\<close>

definition axis_lo :: "AABB \<Rightarrow> Ray \<Rightarrow> nat \<Rightarrow> real \<Rightarrow> real" where
  "axis_lo b ray i lo = (if Vec3_idx (direction ray) i = 0 then lo else max lo (slab_entry b ray i))"

definition axis_hi :: "AABB \<Rightarrow> Ray \<Rightarrow> nat \<Rightarrow> real \<Rightarrow> real" where
  "axis_hi b ray i hi = (if Vec3_idx (direction ray) i = 0 then hi else min hi (slab_exit b ray i))"

definition axis_in :: "AABB \<Rightarrow> Ray \<Rightarrow> nat \<Rightarrow> bool" where
  "axis_in b ray i =
     (if Vec3_idx (direction ray) i = 0
      then Vec3_idx (min_pt b) i \<le> Vec3_idx (origin ray) i \<and>
           Vec3_idx (origin ray) i \<le> Vec3_idx (max_pt b) i
      else True)"

subsection \<open>The roots of the sphere equation\<close>

text \<open>The two roots the source tries, in its order.\<close>

definition sphere_root1 :: "Sphere \<Rightarrow> Ray \<Rightarrow> real" where
  "sphere_root1 s ray =
     (let oc = Vec3_sub (origin ray) (center s);
          a = Vec3_dot (direction ray) (direction ray);
          half_b = Vec3_dot oc (direction ray);
          c = Vec3_dot oc oc - radius s * radius s
      in (- half_b - sqrt (half_b * half_b - a * c)) / a)"

definition sphere_root2 :: "Sphere \<Rightarrow> Ray \<Rightarrow> real" where
  "sphere_root2 s ray =
     (let oc = Vec3_sub (origin ray) (center s);
          a = Vec3_dot (direction ray) (direction ray);
          half_b = Vec3_dot oc (direction ray);
          c = Vec3_dot oc oc - radius s * radius s
      in (- half_b + sqrt (half_b * half_b - a * c)) / a)"

definition sphere_disc :: "Sphere \<Rightarrow> Ray \<Rightarrow> real" where
  "sphere_disc s ray =
     (let oc = Vec3_sub (origin ray) (center s);
          a = Vec3_dot (direction ray) (direction ray);
          half_b = Vec3_dot oc (direction ray);
          c = Vec3_dot oc oc - radius s * radius s
      in half_b * half_b - a * c)"

subsection \<open>The arena as a tree\<close>

text \<open>
  The tree a range of the arena holds: a leaf with its sphere index, or an inner node with
  its two subtrees. \<open>arena_tree spheres nds i tr\<close> says that the node at index \<open>i\<close> of
  the arena \<open>nds\<close> is the root of \<open>tr\<close>, laid out as \<^verbatim>\<open>build\<close> does: the node, then the
  left subtree, then the right subtree.
\<close>

datatype bvh_tree = Leaf int | Node bvh_tree bvh_tree

fun tree_size :: "bvh_tree \<Rightarrow> nat" where
  "tree_size (Leaf s) = 1"
| "tree_size (Node l r) = 1 + tree_size l + tree_size r"

fun tree_leaves :: "bvh_tree \<Rightarrow> int list" where
  "tree_leaves (Leaf s) = [s]"
| "tree_leaves (Node l r) = tree_leaves l @ tree_leaves r"

fun tree_bbox :: "Sphere list \<Rightarrow> bvh_tree \<Rightarrow> AABB" where
  "tree_bbox spheres (Leaf s) = Sphere_bounding_box (spheres ! nat s)"
| "tree_bbox spheres (Node l r) = AABB_merge (tree_bbox spheres l) (tree_bbox spheres r)"

fun arena_tree :: "Sphere list \<Rightarrow> BVHNode list \<Rightarrow> nat \<Rightarrow> bvh_tree \<Rightarrow> bool" where
  "arena_tree spheres nds i (Leaf s) =
     (i < length nds \<and> 0 \<le> s \<and> nat s < length spheres \<and>
      nds ! i = \<lparr>bbox = Sphere_bounding_box (spheres ! nat s), left = - 1, right = - 1,
                 sphere_idx = s, is_leaf = True\<rparr>)"
| "arena_tree spheres nds i (Node l r) =
     (i < length nds \<and>
      nds ! i = \<lparr>bbox = AABB_merge (tree_bbox spheres l) (tree_bbox spheres r),
                 left = int (i + 1), right = int (i + 1 + tree_size l),
                 sphere_idx = - 1, is_leaf = False\<rparr> \<and>
      arena_tree spheres nds (i + 1) l \<and>
      arena_tree spheres nds (i + 1 + tree_size l) r)"

text \<open>The traversal, as a recursion over the tree.\<close>

fun tree_intersect ::
  "Sphere list \<Rightarrow> bvh_tree \<Rightarrow> Ray \<Rightarrow> real \<Rightarrow> real \<Rightarrow> int \<Rightarrow> HitRecord option \<times> int" where
  "tree_intersect spheres (Leaf s) ray t_min t_max tests =
     (if \<not> AABB_intersect (Sphere_bounding_box (spheres ! nat s)) ray t_min t_max
      then (None, tests + 1)
      else (Sphere_intersect (spheres ! nat s) ray t_min t_max, tests + 1))"
| "tree_intersect spheres (Node l r) ray t_min t_max tests =
     (if \<not> AABB_intersect (AABB_merge (tree_bbox spheres l) (tree_bbox spheres r)) ray t_min t_max
      then (None, tests + 1)
      else
        (let hl = tree_intersect spheres l ray t_min t_max (tests + 1);
             t_closest = (case fst hl of Some rec_left \<Rightarrow> t rec_left | None \<Rightarrow> t_max);
             hr = tree_intersect spheres r ray t_min t_closest (snd hl)
         in (case fst hr of Some rec_right \<Rightarrow> Some rec_right | None \<Rightarrow> fst hl, snd hr)))"

subsection \<open>Permuting a range\<close>

text \<open>
  \<open>range_perm xs ys a b\<close>: the vector \<open>ys\<close> is \<open>xs\<close> with the range \<open>[a, b)\<close> permuted.
\<close>

definition range_perm :: "'a list \<Rightarrow> 'a list \<Rightarrow> nat \<Rightarrow> nat \<Rightarrow> bool" where
  "range_perm xs ys a b =
     (length ys = length xs \<and> take a ys = take a xs \<and> drop b ys = drop b xs \<and>
      mset (slice ys a b) = mset (slice xs a b))"

subsection \<open>A well-formed node\<close>

text \<open>What holds of one node of the arena, for the claims about all nodes.\<close>

definition node_ok :: "Sphere list \<Rightarrow> BVHNode list \<Rightarrow> BVHNode \<Rightarrow> bool" where
  "node_ok spheres nds nd =
     (if is_leaf nd then
        0 \<le> sphere_idx nd \<and> nat (sphere_idx nd) < length spheres \<and>
        bbox nd = Sphere_bounding_box (spheres ! nat (sphere_idx nd))
      else
        0 \<le> left nd \<and> nat (left nd) < length nds \<and>
        0 \<le> right nd \<and> nat (right nd) < length nds \<and> left nd \<noteq> right nd \<and>
        bbox nd = AABB_merge (bbox (nds ! nat (left nd))) (bbox (nds ! nat (right nd))))"

subsection \<open>Example inputs\<close>

definition example_sphere :: "real \<Rightarrow> real \<Rightarrow> real \<Rightarrow> real \<Rightarrow> Sphere" where
  "example_sphere cx cy cz r =
     \<lparr>center = Vec3_new cx cy cz, radius = r,
      material = Material_diffuse (Vec3_new (1 / 2) (1 / 2) (1 / 2))\<rparr>"

definition example_ray :: Ray where
  "example_ray = \<lparr>origin = Vec3_new (- 2) (- 1) (- 1), direction = Vec3_new 1 1 1\<rparr>"

section \<open>Properties\<close>

subsection \<open>Boxes\<close>

lemma Vec3_idx_simps [simp]:
  "Vec3_idx u 0 = x u" "Vec3_idx u (Suc 0) = y u" "Vec3_idx u 2 = z u"
  by (simp_all add: Vec3_idx_def)

lemma Vec3_new_sel [simp]:
  "x (Vec3_new a b c) = a" "y (Vec3_new a b c) = b" "z (Vec3_new a b c) = c"
  by (simp_all add: Vec3_new_def)

lemma AABB_new_sel [simp]: "min_pt (AABB_new u v) = u" "max_pt (AABB_new u v) = v"
  by (simp_all add: AABB_new_def)

lemma AABB_merge_sel:
  "x (min_pt (AABB_merge a b)) = min (x (min_pt a)) (x (min_pt b))"
  "y (min_pt (AABB_merge a b)) = min (y (min_pt a)) (y (min_pt b))"
  "z (min_pt (AABB_merge a b)) = min (z (min_pt a)) (z (min_pt b))"
  "x (max_pt (AABB_merge a b)) = max (x (max_pt a)) (x (max_pt b))"
  "y (max_pt (AABB_merge a b)) = max (y (max_pt a)) (y (max_pt b))"
  "z (max_pt (AABB_merge a b)) = max (z (max_pt a)) (z (max_pt b))"
  by (simp_all add: AABB_merge_def Let_def)

lemma AABB_eqI:
  fixes a b :: AABB
  assumes "x (min_pt a) = x (min_pt b)" "y (min_pt a) = y (min_pt b)" "z (min_pt a) = z (min_pt b)"
    "x (max_pt a) = x (max_pt b)" "y (max_pt a) = y (max_pt b)" "z (max_pt a) = z (max_pt b)"
  shows "a = b"
proof -
  have "min_pt a = min_pt b" "max_pt a = max_pt b"
    using assms by (auto intro: Vec3.equality)
  then show ?thesis by (auto intro: AABB.equality)
qed

lemma AABB_empty_sel:
  "x (min_pt AABB_empty) = 10 ^ 30" "y (min_pt AABB_empty) = 10 ^ 30" "z (min_pt AABB_empty) = 10 ^ 30"
  "x (max_pt AABB_empty) = - (10 ^ 30)" "y (max_pt AABB_empty) = - (10 ^ 30)"
  "z (max_pt AABB_empty) = - (10 ^ 30)"
  by (simp_all add: AABB_empty_def)

lemma AABB_contains_merge_left: "AABB_contains (AABB_merge a b) a"
  by (simp add: AABB_contains_def AABB_merge_sel)

lemma AABB_contains_merge_right: "AABB_contains (AABB_merge a b) b"
  by (simp add: AABB_contains_def AABB_merge_sel)

lemma AABB_contains_refl: "AABB_contains a a"
  by (simp add: AABB_contains_def)

lemma AABB_contains_trans: "AABB_contains a b \<Longrightarrow> AABB_contains b c \<Longrightarrow> AABB_contains a c"
  by (auto simp: AABB_contains_def)

text \<open>
  Claim C6, as stated: for every box \<open>a\<close>, merging with the default-constructed box gives
  \<open>a\<close> back, the default-constructed box having minimum components \<open>+\<infinity>\<close> and maximum
  components \<open>-\<infinity>\<close>. The default constructor stores \<open>1e30\<close> and \<open>-1e30\<close>, so a box
  beyond \<open>1e30\<close> is changed by the merge.
\<close>

theorem AABB_merge_empty_counterexample:
  "AABB_merge (AABB_new (Vec3_new (2 * 10 ^ 30) 0 0) (Vec3_new (3 * 10 ^ 30) 1 1)) AABB_empty
     \<noteq> AABB_new (Vec3_new (2 * 10 ^ 30) 0 0) (Vec3_new (3 * 10 ^ 30) 1 1)"
proof
  assume "AABB_merge (AABB_new (Vec3_new (2 * 10 ^ 30) 0 0) (Vec3_new (3 * 10 ^ 30) 1 1)) AABB_empty
     = AABB_new (Vec3_new (2 * 10 ^ 30) 0 0) (Vec3_new (3 * 10 ^ 30) 1 1)"
  then have "x (min_pt (AABB_merge (AABB_new (Vec3_new (2 * 10 ^ 30) 0 0) (Vec3_new (3 * 10 ^ 30) 1 1)) AABB_empty))
     = x (min_pt (AABB_new (Vec3_new (2 * 10 ^ 30) 0 0) (Vec3_new (3 * 10 ^ 30) 1 1)))"
    by simp
  then show False
    by (simp add: AABB_merge_sel AABB_empty_sel)
qed

text \<open>
  Claim C6, amended: the default-constructed box has minimum components \<open>1e30\<close> and
  maximum components \<open>-1e30\<close>, and merging it with a box \<open>a\<close>, on either side, gives \<open>a\<close>
  back whenever the minimum components of \<open>a\<close> are at most \<open>1e30\<close> and its maximum
  components at least \<open>-1e30\<close>.
\<close>

theorem AABB_merge_empty_identity:
  assumes "x (min_pt a) \<le> 10 ^ 30" "y (min_pt a) \<le> 10 ^ 30" "z (min_pt a) \<le> 10 ^ 30"
    and "- (10 ^ 30) \<le> x (max_pt a)" "- (10 ^ 30) \<le> y (max_pt a)" "- (10 ^ 30) \<le> z (max_pt a)"
  shows "min_pt AABB_empty = Vec3_new (10 ^ 30) (10 ^ 30) (10 ^ 30) \<and>
         max_pt AABB_empty = Vec3_new (- (10 ^ 30)) (- (10 ^ 30)) (- (10 ^ 30)) \<and>
         AABB_merge a AABB_empty = a \<and> AABB_merge AABB_empty a = a"
proof -
  have "AABB_merge a AABB_empty = a"
    using assms by (intro AABB_eqI) (simp_all add: AABB_merge_sel AABB_empty_sel)
  moreover have "AABB_merge AABB_empty a = a"
    using assms by (intro AABB_eqI) (simp_all add: AABB_merge_sel AABB_empty_sel)
  ultimately show ?thesis by (simp add: AABB_empty_def)
qed

theorem AABB_merge_empty_identity_witness:
  "AABB_merge (AABB_new (Vec3_new 0 0 0) (Vec3_new 1 1 1)) AABB_empty
     = AABB_new (Vec3_new 0 0 0) (Vec3_new 1 1 1) \<and>
   AABB_merge AABB_empty (AABB_new (Vec3_new 0 0 0) (Vec3_new 1 1 1))
     = AABB_new (Vec3_new 0 0 0) (Vec3_new 1 1 1)"
  using AABB_merge_empty_identity [of "AABB_new (Vec3_new 0 0 0) (Vec3_new 1 1 1)"]
  by simp

text \<open>
  Claim C9: for boxes \<open>a\<close> and \<open>b\<close> whose minimum is at most their maximum on every axis,
  the surface area of \<open>merge(a, b)\<close> is at least the surface area of \<open>a\<close> and at least
  that of \<open>b\<close>; the surface area is \<open>2 * (dx*dy + dy*dz + dz*dx)\<close> by the definition of
  \<open>AABB_surface_area\<close>.
\<close>

theorem AABB_merge_surface_area:
  assumes "x (min_pt a) \<le> x (max_pt a)" "y (min_pt a) \<le> y (max_pt a)" "z (min_pt a) \<le> z (max_pt a)"
    and "x (min_pt b) \<le> x (max_pt b)" "y (min_pt b) \<le> y (max_pt b)" "z (min_pt b) \<le> z (max_pt b)"
  shows "AABB_surface_area a \<le> AABB_surface_area (AABB_merge a b) \<and>
         AABB_surface_area b \<le> AABB_surface_area (AABB_merge a b)"
proof -
  define dx dy dz where "dx = max (x (max_pt a)) (x (max_pt b)) - min (x (min_pt a)) (x (min_pt b))"
    and "dy = max (y (max_pt a)) (y (max_pt b)) - min (y (min_pt a)) (y (min_pt b))"
    and "dz = max (z (max_pt a)) (z (max_pt b)) - min (z (min_pt a)) (z (min_pt b))"
  define ax ay az where "ax = x (max_pt a) - x (min_pt a)" and "ay = y (max_pt a) - y (min_pt a)"
    and "az = z (max_pt a) - z (min_pt a)"
  define bx "by" bz where "bx = x (max_pt b) - x (min_pt b)" and "by = y (max_pt b) - y (min_pt b)"
    and "bz = z (max_pt b) - z (min_pt b)"
  have a0: "0 \<le> ax" "0 \<le> ay" "0 \<le> az" and b0: "0 \<le> bx" "0 \<le> by" "0 \<le> bz"
    using assms by (simp_all add: ax_def ay_def az_def bx_def by_def bz_def)
  have ad: "ax \<le> dx" "ay \<le> dy" "az \<le> dz" and bd: "bx \<le> dx" "by \<le> dy" "bz \<le> dz"
    by (simp_all add: ax_def ay_def az_def bx_def by_def bz_def dx_def dy_def dz_def)
  have area: "AABB_surface_area (AABB_merge a b) = 2 * (dx * dy + dy * dz + dz * dx)"
    "AABB_surface_area a = 2 * (ax * ay + ay * az + az * ax)"
    "AABB_surface_area b = 2 * (bx * by + by * bz + bz * bx)"
    by (simp_all add: AABB_surface_area_def Vec3_sub_def AABB_merge_sel Let_def
        ax_def ay_def az_def bx_def by_def bz_def dx_def dy_def dz_def)
  have "ax * ay \<le> dx * dy" "ay * az \<le> dy * dz" "az * ax \<le> dz * dx"
    using a0 ad by (auto intro!: mult_mono)
  then have A: "ax * ay + ay * az + az * ax \<le> dx * dy + dy * dz + dz * dx"
    by linarith
  have "bx * by \<le> dx * dy" "by * bz \<le> dy * dz" "bz * bx \<le> dz * dx"
    using b0 bd by (auto intro!: mult_mono)
  then have B: "bx * by + by * bz + bz * bx \<le> dx * dy + dy * dz + dz * dx"
    by linarith
  from A B show ?thesis unfolding area by simp
qed

theorem AABB_merge_surface_area_witness:
  "AABB_surface_area (AABB_new (Vec3_new 0 0 0) (Vec3_new 1 1 1))
     \<le> AABB_surface_area (AABB_merge (AABB_new (Vec3_new 0 0 0) (Vec3_new 1 1 1))
                                       (AABB_new (Vec3_new 2 0 0) (Vec3_new 3 1 1))) \<and>
   AABB_surface_area (AABB_new (Vec3_new 2 0 0) (Vec3_new 3 1 1))
     \<le> AABB_surface_area (AABB_merge (AABB_new (Vec3_new 0 0 0) (Vec3_new 1 1 1))
                                       (AABB_new (Vec3_new 2 0 0) (Vec3_new 3 1 1)))"
  using AABB_merge_surface_area [of "AABB_new (Vec3_new 0 0 0) (Vec3_new 1 1 1)"
      "AABB_new (Vec3_new 2 0 0) (Vec3_new 3 1 1)"]
  by simp


subsection \<open>The slab test\<close>

lemma AABB_intersect_from_axis:
  assumes "i < 3"
  shows "AABB_intersect_from b ray i lo hi =
     (axis_in b ray i \<and> axis_lo b ray i lo < axis_hi b ray i hi \<and>
      AABB_intersect_from b ray (Suc i) (axis_lo b ray i lo) (axis_hi b ray i hi))"
proof (cases "Vec3_idx (direction ray) i = 0")
  case True
  have "AABB_intersect_from b ray i lo hi =
      (if Vec3_idx (origin ray) i < Vec3_idx (min_pt b) i \<or>
          Vec3_idx (max_pt b) i < Vec3_idx (origin ray) i then False
       else if hi \<le> lo then False
       else AABB_intersect_from b ray (i + 1) lo hi)"
    by (subst AABB_intersect_from.simps) (simp only: assms True if_True simp_thms)
  with True show ?thesis
    by (auto simp: axis_in_def axis_lo_def axis_hi_def)
next
  case False
  have "AABB_intersect_from b ray i lo hi =
      (if min hi (slab_exit b ray i) \<le> max lo (slab_entry b ray i) then False
       else AABB_intersect_from b ray (i + 1) (max lo (slab_entry b ray i))
              (min hi (slab_exit b ray i)))"
  proof (cases "Vec3_idx (direction ray) i < 0")
    case True
    with False show ?thesis
      by (subst AABB_intersect_from.simps)
        (simp only: assms if_True if_False slab_entry_def slab_exit_def Let_def
          divide_less_0_iff zero_less_one simp_thms not_less not_one_le_zero)
  next
    case neg: False
    with False show ?thesis
      by (subst AABB_intersect_from.simps)
        (simp only: assms if_True if_False slab_entry_def slab_exit_def Let_def
          divide_less_0_iff zero_less_one simp_thms not_less not_one_le_zero not_one_less_zero)
  qed
  with False show ?thesis
    by (auto simp: axis_in_def axis_lo_def axis_hi_def)
qed









subsection \<open>The empty scene\<close>

text \<open>
  Claim C3: for a scene with no primitive the constructor leaves the node arena empty, and
  the traversal returns false for every ray and every interval; it returns a value, so
  no node is read.
\<close>

theorem BVH_empty_scene:
  "BVH_new srt prt [] = Some \<lparr>nodes = [], bvh_intersection_tests = 0\<rparr> \<and>
   BVH_intersect \<lparr>nodes = [], bvh_intersection_tests = 0\<rparr> [] ray t_min t_max tests
     = Some (None, tests) \<and>
   Scene_intersect_bvh \<lparr>scene_spheres = [], scene_bvh = BVH_new srt prt []\<rparr> ray t_min t_max tests
     = Some (None, tests)"
  by (simp add: BVH_new_def BVH_intersect_def Scene_intersect_bvh_def)

subsection \<open>Path tracing\<close>

text \<open>
  Claim C8: at depth 0 \<open>ray_color\<close> returns black for every ray and every scene. No
  intersection query runs: the result is there for every scene, also one whose \<open>bvh\<close>
  pointer is null or whose arena cannot be traversed, and the test counter and the
  random generator are as before the call.
\<close>

theorem ray_color_depth_zero:
  "ray_color draws ray scene 0 use_bvh st = Some (Vec3_new 0 0 0, st)"
  by (simp add: ray_color.simps)

theorem ray_color_depth_zero_witness:
  "ray_color (\<lambda>n. 0) \<lparr>origin = Vec3_new 0 0 0, direction = Vec3_new 0 0 (- 1)\<rparr>
     \<lparr>scene_spheres = [], scene_bvh = None\<rparr> 0 True (0, 0) = Some (Vec3_new 0 0 0, (0, 0))"
  using ray_color_depth_zero [of "\<lambda>n. 0" "\<lparr>origin = Vec3_new 0 0 0, direction = Vec3_new 0 0 (- 1)\<rparr>"
      "\<lparr>scene_spheres = [], scene_bvh = None\<rparr>" True "(0, 0)"]
  by simp

text \<open>
  Claim C4: in the glass branch the refraction ratio is \<open>1/ior\<close> on a front face and
  \<open>ior\<close> otherwise; the scattered ray is the reflection when \<open>ratio * sin_theta > 1\<close>;
  otherwise one number is drawn, and the ray is the reflection when the draw is below the
  Schlick reflectance \<open>r0 + (1 - r0) * (1 - cos_theta)^5\<close> with
  \<open>r0 = ((1 - ior) / (1 + ior))^2\<close>, and the refraction otherwise; the attenuation is
  \<open>(1, 1, 1)\<close>. At \<open>cos_theta = 1\<close> and \<open>ior = 1.5\<close> the reflectance is \<open>0.04\<close>.
\<close>

lemma schlick_reciprocal:
  assumes "i \<noteq> 0"
  shows "schlick c (1 / i) = schlick c i"
proof -
  have "1 - 1 / i = (i - 1) / i" "1 + 1 / i = (i + 1) / i"
    using assms by (simp_all add: field_simps)
  then have "(1 - 1 / i) / (1 + 1 / i) = (i - 1) / (i + 1)"
    using assms by simp
  also have "\<dots> = - ((1 - i) / (1 + i))"
  proof -
    have "i - 1 = - (1 - i)" "i + 1 = 1 + i" by simp_all
    then show ?thesis by (simp only: minus_divide_left)
  qed
  finally show ?thesis by (simp add: schlick_def Let_def)
qed

theorem scatter_glass_rule:
  fixes rec :: HitRecord and ray :: Ray and draws :: "nat \<Rightarrow> real" and pos :: nat
  assumes "ior (mat rec) \<noteq> 0"
  defines "ratio \<equiv> (if front_face rec then 1 / ior (mat rec) else ior (mat rec))"
    and "unit_dir \<equiv> Vec3_normalize (direction ray)"
  defines "cos_theta \<equiv> min (Vec3_dot (Vec3_neg unit_dir) (normal rec)) 1"
  defines "sin_theta \<equiv> sqrt (1 - cos_theta * cos_theta)"
    and "r0 \<equiv> ((1 - ior (mat rec)) / (1 + ior (mat rec))) ^ 2"
  defines "reflectance \<equiv> r0 + (1 - r0) * (1 - cos_theta) ^ 5"
  shows "scatter_glass draws ray rec pos =
           (if ratio * sin_theta > 1
            then Some (Some (Vec3_new 1 1 1,
                             \<lparr>origin = point rec, direction = reflect unit_dir (normal rec)\<rparr>), pos)
            else if draws pos < reflectance
            then Some (Some (Vec3_new 1 1 1,
                             \<lparr>origin = point rec, direction = reflect unit_dir (normal rec)\<rparr>), pos + 1)
            else Some (Some (Vec3_new 1 1 1,
                             \<lparr>origin = point rec, direction = refract unit_dir (normal rec) ratio\<rparr>),
                       pos + 1)) \<and>
         schlick 1 (3 / 2) = 4 / 100 \<and> schlick 1 (1 / (3 / 2)) = 4 / 100"
proof -
  have "schlick cos_theta ratio = reflectance"
  proof -
    have "schlick cos_theta ratio = schlick cos_theta (ior (mat rec))"
      using assms(1) by (simp add: ratio_def schlick_reciprocal)
    then show ?thesis
      by (simp add: schlick_def reflectance_def r0_def Let_def power2_eq_square)
  qed
  then show ?thesis
    by (simp add: scatter_glass_def Let_def rand01_def schlick_def
        flip: ratio_def unit_dir_def cos_theta_def sin_theta_def)
qed

theorem scatter_glass_rule_witness:
  "scatter_glass (\<lambda>n. 1 / 2) \<lparr>origin = Vec3_new 0 0 1, direction = Vec3_new 0 0 (- 1)\<rparr>
     \<lparr>point = Vec3_new 0 0 0, normal = Vec3_new 0 0 1, t = 1, front_face = True,
      mat = Material_glass (3 / 2)\<rparr> 0
   = Some (Some (Vec3_new 1 1 1,
                 \<lparr>origin = Vec3_new 0 0 0,
                  direction = refract (Vec3_new 0 0 (- 1)) (Vec3_new 0 0 1) (2 / 3)\<rparr>), 1)"
  using scatter_glass_rule [of "\<lparr>point = Vec3_new 0 0 0, normal = Vec3_new 0 0 1, t = 1,
      front_face = True, mat = Material_glass (3 / 2)\<rparr>" "\<lambda>n. 1 / 2"
      "\<lparr>origin = Vec3_new 0 0 1, direction = Vec3_new 0 0 (- 1)\<rparr>" 0]
  by (simp add: Material_glass_def Vec3_normalize_def Vec3_length_def Vec3_div_def Vec3_dot_def
      Vec3_neg_def power2_eq_square)

subsection \<open>Sphere hits\<close>

lemma Sphere_hit_record_t [simp]: "t (Sphere_hit_record s ray k) = k"
  by (simp add: Sphere_hit_record_def Let_def)

lemma Sphere_intersect_roots:
  "Sphere_intersect s ray lo hi =
     (if sphere_disc s ray < 0 then None
      else if sphere_root1 s ray < lo \<or> sphere_root1 s ray > hi then
        (if sphere_root2 s ray < lo \<or> sphere_root2 s ray > hi then None
         else Some (Sphere_hit_record s ray (sphere_root2 s ray)))
      else Some (Sphere_hit_record s ray (sphere_root1 s ray)))"
  by (simp add: Sphere_intersect_def sphere_disc_def sphere_root1_def sphere_root2_def Let_def)

lemma sphere_roots_le:
  assumes "\<not> sphere_disc s ray < 0"
  shows "sphere_root1 s ray \<le> sphere_root2 s ray"
proof -
  have "0 \<le> Vec3_dot (direction ray) (direction ray)"
    by (simp add: Vec3_dot_def)
  moreover have "0 \<le> sqrt (sphere_disc s ray)"
    using assms by simp
  ultimately show ?thesis
    unfolding sphere_root1_def sphere_root2_def sphere_disc_def Let_def
    by (intro divide_right_mono) simp_all
qed

lemma Sphere_intersect_bounds:
  assumes "Sphere_intersect s ray lo hi = Some rec"
  shows "lo \<le> t rec \<and> t rec \<le> hi"
  using assms by (auto simp: Sphere_intersect_roots split: if_splits)

text \<open>A hit found below \<open>hi\<close> is the hit found below any bound between it and \<open>hi\<close>.\<close>

lemma Sphere_intersect_shrink:
  assumes "Sphere_intersect s ray lo hi = Some rec" and "t rec \<le> hi'" and "hi' \<le> hi"
  shows "Sphere_intersect s ray lo hi' = Some rec"
proof -
  from assms(1) have d: "\<not> sphere_disc s ray < 0"
    by (auto simp: Sphere_intersect_roots split: if_splits)
  note le = sphere_roots_le [OF d]
  from assms le show ?thesis
    by (auto simp: Sphere_intersect_roots split: if_splits)
qed

lemma Sphere_intersect_widen:
  assumes "Sphere_intersect s ray lo hi' = Some rec" and "hi' \<le> hi"
  shows "Sphere_intersect s ray lo hi = Some rec"
proof -
  from assms(1) have d: "\<not> sphere_disc s ray < 0"
    by (auto simp: Sphere_intersect_roots split: if_splits)
  note le = sphere_roots_le [OF d]
  from assms le show ?thesis
    by (auto simp: Sphere_intersect_roots split: if_splits)
qed

subsection \<open>The exhaustive search\<close>

lemma intersect_brute_from_acc:
  assumes "acc = Some a" and "t a \<le> closest"
  shows "\<exists>rec. intersect_brute_from ss ray lo closest acc = Some rec \<and> t rec \<le> closest"
  using assms
proof (induction ss arbitrary: closest acc a)
  case Nil
  then show ?case by simp
next
  case (Cons s ss)
  show ?case
  proof (cases "Sphere_intersect s ray lo closest")
    case None
    with Cons show ?thesis by simp
  next
    case (Some tmp)
    then have b: "t tmp \<le> closest"
      using Sphere_intersect_bounds by blast
    from Cons.IH [of "Some tmp" tmp "t tmp"] obtain rec where
      "intersect_brute_from ss ray lo (t tmp) (Some tmp) = Some rec" "t rec \<le> t tmp"
      by auto
    with Some b show ?thesis by auto
  qed
qed

text \<open>The search returns a record that some sphere of the list gives in the interval.\<close>

lemma intersect_brute_from_source:
  assumes "intersect_brute_from ss ray lo closest acc = Some rec"
  shows "acc = Some rec \<or> (\<exists>s \<in> set ss. Sphere_intersect s ray lo closest = Some rec)"
  using assms
proof (induction ss arbitrary: closest acc)
  case Nil
  then show ?case by simp
next
  case (Cons s ss)
  show ?case
  proof (cases "Sphere_intersect s ray lo closest")
    case None
    with Cons show ?thesis by auto
  next
    case (Some tmp)
    with Cons.prems have "intersect_brute_from ss ray lo (t tmp) (Some tmp) = Some rec"
      by simp
    from Cons.IH [OF this] consider "tmp = rec"
      | s' where "s' \<in> set ss" "Sphere_intersect s' ray lo (t tmp) = Some rec"
      by auto
    then show ?thesis
    proof cases
      case 1
      with Some show ?thesis by auto
    next
      case 2
      moreover have "t tmp \<le> closest"
        using Some Sphere_intersect_bounds by blast
      ultimately have "Sphere_intersect s' ray lo closest = Some rec"
        using Sphere_intersect_widen by blast
      with 2 show ?thesis by auto
    qed
  qed
qed

text \<open>The search returns a hit no farther than the hit of any sphere of the list.\<close>

lemma intersect_brute_from_nearest:
  assumes "s \<in> set ss" and "Sphere_intersect s ray lo closest = Some rec"
  shows "\<exists>rec'. intersect_brute_from ss ray lo closest acc = Some rec' \<and> t rec' \<le> t rec"
  using assms
proof (induction ss arbitrary: closest acc)
  case Nil
  then show ?case by simp
next
  case (Cons s0 ss)
  show ?case
  proof (cases "Sphere_intersect s0 ray lo closest")
    case None
    with Cons.prems have "s \<in> set ss" by auto
    from Cons.IH [OF this Cons.prems(2)] None show ?thesis by simp
  next
    case (Some tmp)
    show ?thesis
    proof (cases "s \<in> set ss \<and> t rec \<le> t tmp")
      case True
      moreover have "t tmp \<le> closest"
        using Some Sphere_intersect_bounds by blast
      ultimately have "Sphere_intersect s ray lo (t tmp) = Some rec"
        using Cons.prems(2) Sphere_intersect_shrink by blast
      from Cons.IH [OF _ this] True Some show ?thesis by simp
    next
      case False
      then have "t tmp \<le> t rec"
        using Cons.prems Some by auto
      moreover obtain rec' where
        "intersect_brute_from ss ray lo (t tmp) (Some tmp) = Some rec'" "t rec' \<le> t tmp"
        using intersect_brute_from_acc [of "Some tmp" tmp "t tmp" ss ray lo] by auto
      ultimately show ?thesis using Some by auto
    qed
  qed
qed

subsection \<open>A hit lies inside the bounding box\<close>

lemma quadratic_root:
  fixes a hb c k sq :: real
  assumes "a \<noteq> 0" and "sq * sq = hb * hb - a * c"
    and "k = (- hb - sq) / a \<or> k = (- hb + sq) / a"
  shows "a * k * k + 2 * hb * k + c = 0"
proof -
  have e: "a * (a * k * k + 2 * hb * k + c) = (a * k) * (a * k) + 2 * hb * (a * k) + a * c"
    by (simp add: algebra_simps)
  from assms(1,3) have "a * k = - hb - sq \<or> a * k = - hb + sq"
    by auto
  then have "a * (a * k * k + 2 * hb * k + c) = 0"
  proof
    assume ak: "a * k = - hb - sq"
    have "(a * k) * (a * k) + 2 * hb * (a * k) + a * c
            = (- hb - sq) * (- hb - sq) + 2 * hb * (- hb - sq) + a * c"
      by (simp only: ak)
    also have "\<dots> = sq * sq - hb * hb + a * c" by (simp add: algebra_simps)
    finally show ?thesis using assms(2) e by simp
  next
    assume ak: "a * k = - hb + sq"
    have "(a * k) * (a * k) + 2 * hb * (a * k) + a * c
            = (- hb + sq) * (- hb + sq) + 2 * hb * (- hb + sq) + a * c"
      by (simp only: ak)
    also have "\<dots> = sq * sq - hb * hb + a * c" by (simp add: algebra_simps)
    finally show ?thesis using assms(2) e by simp
  qed
  with assms(1) show ?thesis by simp
qed

lemma Vec3_dot_ray_offset:
  "Vec3_dot (Vec3_sub (Ray_at ray k) c) (Vec3_sub (Ray_at ray k) c) =
     Vec3_dot (direction ray) (direction ray) * k * k
     + 2 * Vec3_dot (Vec3_sub (origin ray) c) (direction ray) * k
     + Vec3_dot (Vec3_sub (origin ray) c) (Vec3_sub (origin ray) c)"
  by (simp add: Vec3_dot_def Vec3_sub_def Ray_at_def Vec3_add_def Vec3_scale_def algebra_simps)

lemma Sphere_intersect_on_sphere:
  assumes "Sphere_intersect s ray lo hi = Some rec"
    and "Vec3_dot (direction ray) (direction ray) \<noteq> 0"
  shows "Vec3_dot (Vec3_sub (Ray_at ray (t rec)) (center s)) (Vec3_sub (Ray_at ray (t rec)) (center s))
           = radius s * radius s"
proof -
  define oc where "oc = Vec3_sub (origin ray) (center s)"
  define a where "a = Vec3_dot (direction ray) (direction ray)"
  define hb where "hb = Vec3_dot oc (direction ray)"
  define c where "c = Vec3_dot oc oc - radius s * radius s"
  define sq where "sq = sqrt (hb * hb - a * c)"
  from assms(1) have d: "\<not> sphere_disc s ray < 0"
    and k: "t rec = sphere_root1 s ray \<or> t rec = sphere_root2 s ray"
    by (auto simp: Sphere_intersect_roots split: if_splits)
  from d have "0 \<le> hb * hb - a * c"
    by (simp add: sphere_disc_def hb_def a_def c_def oc_def Let_def)
  then have sq: "sq * sq = hb * hb - a * c"
    by (simp add: sq_def)
  from k have "t rec = (- hb - sq) / a \<or> t rec = (- hb + sq) / a"
    by (simp add: sphere_root1_def sphere_root2_def hb_def a_def c_def oc_def sq_def Let_def)
  with assms(2) sq have "a * t rec * t rec + 2 * hb * t rec + c = 0"
    by (intro quadratic_root) (simp_all add: a_def)
  then show ?thesis
    unfolding Vec3_dot_ray_offset by (simp add: a_def hb_def c_def oc_def)
qed

lemma Vec3_idx_square_le:
  assumes "Vec3_dot u u = r * r"
  shows "Vec3_idx u i * Vec3_idx u i \<le> r * r"
  using assms [symmetric] by (simp add: Vec3_dot_def Vec3_idx_def)

lemma Vec3_idx_squares_le:
  assumes "Vec3_dot u u = r * r" and "i < 3" and "j < 3" and "i \<noteq> j"
  shows "Vec3_idx u i * Vec3_idx u i + Vec3_idx u j * Vec3_idx u j \<le> r * r"
proof -
  from assms(2-4) consider "i = 0 \<and> j = 1" | "i = 0 \<and> j = 2" | "i = 1 \<and> j = 0" | "i = 1 \<and> j = 2"
    | "i = 2 \<and> j = 0" | "i = 2 \<and> j = 1"
    by linarith
  then show ?thesis
    using assms(1) [symmetric] by cases (simp_all add: Vec3_dot_def Vec3_idx_def)
qed

lemma Vec3_idx_sub: "Vec3_idx (Vec3_sub u v) i = Vec3_idx u i - Vec3_idx v i"
  by (simp add: Vec3_idx_def Vec3_sub_def)

lemma Vec3_idx_Ray_at:
  "Vec3_idx (Ray_at ray k) i = Vec3_idx (origin ray) i + Vec3_idx (direction ray) i * k"
  by (simp add: Vec3_idx_def Ray_at_def Vec3_add_def Vec3_scale_def)

lemma Vec3_idx_bounding_box:
  "Vec3_idx (min_pt (Sphere_bounding_box s)) i = Vec3_idx (center s) i - radius s"
  "Vec3_idx (max_pt (Sphere_bounding_box s)) i = Vec3_idx (center s) i + radius s"
  by (simp_all add: Sphere_bounding_box_def Vec3_idx_def Vec3_sub_def Vec3_add_def Let_def)

text \<open>
  On one axis: with \<open>u\<close> the offset of the point at parameter \<open>k\<close> from the centre,
  \<open>-r \<le> u \<le> r\<close> puts \<open>k\<close> between the entry and the exit of the slab, and \<open>k\<close> is the
  entry or the exit only when \<open>u\<close> is \<open>r\<close> or \<open>-r\<close>.
\<close>

lemma slab_of_sphere:
  fixes s :: Sphere and ray :: Ray and k :: real and i :: nat
  defines "u \<equiv> Vec3_idx (Vec3_sub (Ray_at ray k) (center s)) i"
  assumes d: "Vec3_idx (direction ray) i \<noteq> 0" and r: "0 < radius s"
    and u: "u * u \<le> radius s * radius s"
  shows "slab_entry (Sphere_bounding_box s) ray i \<le> k"
    and "k \<le> slab_exit (Sphere_bounding_box s) ray i"
    and "slab_entry (Sphere_bounding_box s) ray i < slab_exit (Sphere_bounding_box s) ray i"
    and "slab_entry (Sphere_bounding_box s) ray i = k \<Longrightarrow> u * u = radius s * radius s"
    and "slab_exit (Sphere_bounding_box s) ray i = k \<Longrightarrow> u * u = radius s * radius s"
proof -
  define di where "di = Vec3_idx (direction ray) i"
  define oi where "oi = Vec3_idx (origin ray) i"
  define ci where "ci = Vec3_idx (center s) i"
  define rr where "rr = radius s"
  have ueq: "u = oi + di * k - ci"
    by (simp add: u_def Vec3_idx_sub Vec3_idx_Ray_at oi_def di_def ci_def)
  from u r have ub: "- rr \<le> u" "u \<le> rr"
    unfolding rr_def using abs_le_square_iff [of u "radius s"]
    by (simp_all add: power2_eq_square abs_le_iff)
  have sq: "u * u = rr * rr" if "u = rr \<or> u = - rr"
    using that by auto
  have en: "slab_entry (Sphere_bounding_box s) ray i =
      (if di < 0 then (ci + rr - oi) / di else (ci - rr - oi) / di)"
    and ex: "slab_exit (Sphere_bounding_box s) ray i =
      (if di < 0 then (ci - rr - oi) / di else (ci + rr - oi) / di)"
    by (simp_all add: slab_entry_def slab_exit_def Vec3_idx_bounding_box Let_def
        di_def oi_def ci_def rr_def)
  have dk: "di * k = u - oi + ci"
    by (simp add: ueq)
  have "di < 0 \<or> 0 < di"
    using d unfolding di_def by linarith
  then consider "di < 0" | "0 < di"
    by blast
  then have main: "slab_entry (Sphere_bounding_box s) ray i \<le> k \<and>
      k \<le> slab_exit (Sphere_bounding_box s) ray i \<and>
      slab_entry (Sphere_bounding_box s) ray i < slab_exit (Sphere_bounding_box s) ray i \<and>
      (slab_entry (Sphere_bounding_box s) ray i = k \<longrightarrow> u = rr \<or> u = - rr) \<and>
      (slab_exit (Sphere_bounding_box s) ray i = k \<longrightarrow> u = rr \<or> u = - rr)"
  proof cases
    case 1
    have "k = (u - oi + ci) / di"
      using 1 dk by (simp add: field_simps)
    then show ?thesis
      using 1 ub r unfolding en ex rr_def [symmetric]
      by (simp add: divide_le_cancel divide_less_cancel divide_cancel_right)
  next
    case 2
    have "k = (u - oi + ci) / di"
      using 2 dk by (simp add: field_simps)
    then show ?thesis
      using 2 ub r unfolding en ex rr_def [symmetric]
      by (simp add: divide_le_cancel divide_less_cancel divide_cancel_right)
  qed
  from main show "slab_entry (Sphere_bounding_box s) ray i \<le> k"
    and "k \<le> slab_exit (Sphere_bounding_box s) ray i"
    and "slab_entry (Sphere_bounding_box s) ray i < slab_exit (Sphere_bounding_box s) ray i"
    by simp_all
  from main sq show "slab_entry (Sphere_bounding_box s) ray i = k \<Longrightarrow> u * u = radius s * radius s"
    and "slab_exit (Sphere_bounding_box s) ray i = k \<Longrightarrow> u * u = radius s * radius s"
    by (auto simp: rr_def)
qed

lemma direction_dot_nonzero:
  assumes "direction ray \<noteq> Vec3_new 0 0 0"
  shows "Vec3_dot (direction ray) (direction ray) \<noteq> 0"
proof
  assume "Vec3_dot (direction ray) (direction ray) = 0"
  then have "x (direction ray) = 0 \<and> y (direction ray) = 0 \<and> z (direction ray) = 0"
    by (simp add: Vec3_dot_def sum_squares_eq_zero_iff add_nonneg_eq_0_iff)
  then have "direction ray = Vec3_new 0 0 0"
    by (simp add: Vec3_new_def)
  with assms show False by simp
qed

text \<open>The box test is monotone in the box.\<close>

lemma slab_contains:
  assumes "AABB_contains outer inner" and "Vec3_idx (direction ray) i \<noteq> 0"
  shows "slab_entry outer ray i \<le> slab_entry inner ray i"
    and "slab_exit inner ray i \<le> slab_exit outer ray i"
proof -
  from assms(1) have mn: "Vec3_idx (min_pt outer) i \<le> Vec3_idx (min_pt inner) i"
    and mx: "Vec3_idx (max_pt inner) i \<le> Vec3_idx (max_pt outer) i"
    by (auto simp: AABB_contains_def Vec3_idx_def)
  from assms(2) consider "Vec3_idx (direction ray) i < 0" | "0 < Vec3_idx (direction ray) i"
    by linarith
  then have "slab_entry outer ray i \<le> slab_entry inner ray i \<and>
             slab_exit inner ray i \<le> slab_exit outer ray i"
  proof cases
    case 1
    with mn mx show ?thesis
      by (simp add: slab_entry_def slab_exit_def Let_def divide_le_cancel)
  next
    case 2
    with mn mx show ?thesis
      by (simp add: slab_entry_def slab_exit_def Let_def divide_le_cancel)
  qed
  then show "slab_entry outer ray i \<le> slab_entry inner ray i"
    and "slab_exit inner ray i \<le> slab_exit outer ray i"
    by simp_all
qed

lemma axis_contains:
  assumes c: "AABB_contains outer inner" and "axis_in inner ray i"
    and "lo_o \<le> lo_i" and "hi_i \<le> hi_o"
  shows "axis_in outer ray i"
    and "axis_lo outer ray i lo_o \<le> axis_lo inner ray i lo_i"
    and "axis_hi inner ray i hi_i \<le> axis_hi outer ray i hi_o"
proof -
  from c have mn: "Vec3_idx (min_pt outer) i \<le> Vec3_idx (min_pt inner) i"
    and mx: "Vec3_idx (max_pt inner) i \<le> Vec3_idx (max_pt outer) i"
    by (auto simp: AABB_contains_def Vec3_idx_def)
  with assms(2) show "axis_in outer ray i"
    by (auto simp: axis_in_def)
  show "axis_lo outer ray i lo_o \<le> axis_lo inner ray i lo_i"
    using slab_contains(1) [OF c, of ray i] assms(3) by (auto simp: axis_lo_def)
  show "axis_hi inner ray i hi_i \<le> axis_hi outer ray i hi_o"
    using slab_contains(2) [OF c, of ray i] assms(4) by (auto simp: axis_hi_def)
qed

lemma AABB_intersect_from_contains:
  assumes "AABB_contains outer inner" and "AABB_intersect_from inner ray i lo_i hi_i"
    and "lo_o \<le> lo_i" and "hi_i \<le> hi_o"
  shows "AABB_intersect_from outer ray i lo_o hi_o"
  using assms(2-4)
proof (induction "3 - i" arbitrary: i lo_i hi_i lo_o hi_o)
  case 0
  then show ?case
    by (subst AABB_intersect_from.simps) simp
next
  case (Suc n)
  then have i: "i < 3" and n: "n = 3 - Suc i" by simp_all
  from Suc.prems(1) have inner: "axis_in inner ray i"
    "axis_lo inner ray i lo_i < axis_hi inner ray i hi_i"
    "AABB_intersect_from inner ray (Suc i) (axis_lo inner ray i lo_i) (axis_hi inner ray i hi_i)"
    unfolding AABB_intersect_from_axis [OF i] by simp_all
  note ac = axis_contains [OF assms(1) inner(1) Suc.prems(2,3)]
  from Suc.hyps(1) [OF n inner(3) ac(2,3)] ac inner(2) show ?case
    unfolding AABB_intersect_from_axis [OF i, of outer] by simp
qed

lemma AABB_intersect_contains:
  assumes "AABB_contains outer inner" and "AABB_intersect inner ray lo hi"
  shows "AABB_intersect outer ray lo hi"
  using AABB_intersect_from_contains [OF assms(1) assms(2) [unfolded AABB_intersect_def]]
  by (simp add: AABB_intersect_def)

text \<open>A hit strictly inside the interval passes the box test of the sphere's own box.\<close>

lemma Sphere_hit_passes_box:
  assumes hit: "Sphere_intersect s ray lo hi = Some rec"
    and strict: "lo < t rec" "t rec < hi"
    and r: "0 < radius s" and nz: "direction ray \<noteq> Vec3_new 0 0 0"
  shows "AABB_intersect (Sphere_bounding_box s) ray lo hi"
proof -
  define u where "u = Vec3_sub (Ray_at ray (t rec)) (center s)"
  define bx where "bx = Sphere_bounding_box s"
  define en where "en = slab_entry bx ray"
  define ex where "ex = slab_exit bx ray"
  define nzd where "nzd = (\<lambda>i. Vec3_idx (direction ray) i \<noteq> 0)"
  have on: "Vec3_dot u u = radius s * radius s"
    unfolding u_def by (rule Sphere_intersect_on_sphere [OF hit direction_dot_nonzero [OF nz]])
  have ax: "en i \<le> t rec" "t rec \<le> ex i" "en i < ex i"
    "en i = t rec \<Longrightarrow> Vec3_idx u i * Vec3_idx u i = radius s * radius s"
    "ex i = t rec \<Longrightarrow> Vec3_idx u i * Vec3_idx u i = radius s * radius s" if "nzd i" for i
    unfolding en_def ex_def u_def bx_def
    using slab_of_sphere [OF that [unfolded nzd_def] r Vec3_idx_square_le [OF on [unfolded u_def]]]
    by blast+
  have cross: "\<not> (en i = t rec \<and> ex j = t rec)" if "i < 3" "j < 3" "nzd i" "nzd j" for i j
  proof (cases "i = j")
    case True
    with ax(3) [OF that(3)] show ?thesis by simp
  next
    case False
    show ?thesis
    proof
      assume "en i = t rec \<and> ex j = t rec"
      then have "Vec3_idx u i * Vec3_idx u i + Vec3_idx u j * Vec3_idx u j
                   = radius s * radius s + radius s * radius s"
        using ax(4) [OF that(3)] ax(5) [OF that(4)] by simp
      moreover have "Vec3_idx u i * Vec3_idx u i + Vec3_idx u j * Vec3_idx u j \<le> radius s * radius s"
        using Vec3_idx_squares_le [OF on that(1,2) False] .
      moreover have "0 < radius s * radius s"
        using r by simp
      ultimately show False by linarith
    qed
  qed
  define inv where "inv = (\<lambda>lo' hi'. lo' \<le> t rec \<and> t rec \<le> hi' \<and>
      (lo' = t rec \<longrightarrow> (\<exists>i<3. nzd i \<and> en i = t rec)) \<and>
      (hi' = t rec \<longrightarrow> (\<exists>j<3. nzd j \<and> ex j = t rec)))"
  have inv_strict: "lo' < hi'" if "inv lo' hi'" for lo' hi'
  proof (rule ccontr)
    assume "\<not> lo' < hi'"
    with that have "lo' = t rec" "hi' = t rec"
      unfolding inv_def by linarith+
    with that obtain i j where "i < 3" "j < 3" "nzd i" "nzd j" "en i = t rec" "ex j = t rec"
      unfolding inv_def by blast
    with cross show False by blast
  qed
  have inv_step: "axis_in bx ray i \<and> inv (axis_lo bx ray i lo') (axis_hi bx ray i hi')"
    if "inv lo' hi'" "i < 3" for lo' hi' i
  proof (cases "nzd i")
    case True
    then have "axis_in bx ray i" "axis_lo bx ray i lo' = max lo' (en i)"
      "axis_hi bx ray i hi' = min hi' (ex i)"
      by (simp_all add: axis_in_def axis_lo_def axis_hi_def nzd_def en_def ex_def)
    moreover have "inv (max lo' (en i)) (min hi' (ex i))"
      using that ax(1,2) [OF True] True unfolding inv_def
      by (auto simp: max_def min_def)
    ultimately show ?thesis by simp
  next
    case False
    then have d0: "Vec3_idx (direction ray) i = 0"
      by (simp add: nzd_def)
    then have "Vec3_idx u i = Vec3_idx (origin ray) i - Vec3_idx (center s) i"
      by (simp add: u_def Vec3_idx_sub Vec3_idx_Ray_at)
    moreover have "\<bar>Vec3_idx u i\<bar> \<le> \<bar>radius s\<bar>"
      using Vec3_idx_square_le [OF on, of i] abs_le_square_iff [of "Vec3_idx u i" "radius s"]
      by (simp add: power2_eq_square)
    ultimately have "axis_in bx ray i"
      using r d0 by (simp add: axis_in_def bx_def Vec3_idx_bounding_box abs_le_iff)
    with d0 that(1) show ?thesis
      by (simp add: axis_lo_def axis_hi_def)
  qed
  have run: "AABB_intersect_from bx ray i lo' hi'" if "inv lo' hi'" for i lo' hi'
    using that
  proof (induction "3 - i" arbitrary: i lo' hi')
    case 0
    then show ?case
      by (subst AABB_intersect_from.simps) simp
  next
    case (Suc n)
    then have i: "i < 3" and n: "n = 3 - Suc i" by simp_all
    from inv_step [OF Suc.prems i] have st: "axis_in bx ray i"
      "inv (axis_lo bx ray i lo') (axis_hi bx ray i hi')"
      by simp_all
    from Suc.hyps(1) [OF n st(2)] st(1) inv_strict [OF st(2)] show ?case
      unfolding AABB_intersect_from_axis [OF i, of bx] by simp
  qed
  have "inv lo hi"
    using strict by (simp add: inv_def)
  from run [OF this, of 0] show ?thesis
    by (simp add: AABB_intersect_def bx_def)
qed

subsection \<open>The traversal follows the tree\<close>

lemma tree_size_pos: "0 < tree_size tr"
  by (cases tr) simp_all

lemma arena_tree_bounds: "arena_tree spheres nds i tr \<Longrightarrow> i + tree_size tr \<le> length nds"
  by (induction tr arbitrary: i) fastforce+

lemma arena_tree_bbox: "arena_tree spheres nds i tr \<Longrightarrow> bbox (nds ! i) = tree_bbox spheres tr"
  by (cases tr) simp_all

lemma arena_tree_cong:
  assumes "arena_tree spheres nds i tr"
    and "\<And>p. i \<le> p \<Longrightarrow> p < i + tree_size tr \<Longrightarrow> nds' ! p = nds ! p"
    and "length nds \<le> length nds'"
  shows "arena_tree spheres nds' i tr"
  using assms
proof (induction tr arbitrary: i)
  case (Leaf s)
  then show ?case by simp
next
  case (Node l r)
  from Node.prems(1) have a: "arena_tree spheres nds (i + 1) l"
    "arena_tree spheres nds (i + 1 + tree_size l) r"
    by simp_all
  have "arena_tree spheres nds' (i + 1) l"
    using Node.prems by (intro Node.IH(1) [OF a(1)]) simp_all
  moreover have "arena_tree spheres nds' (i + 1 + tree_size l) r"
    using Node.prems by (intro Node.IH(2) [OF a(2)]) simp_all
  moreover have "nds' ! i = nds ! i"
    using Node.prems(2) [of i] by simp
  ultimately show ?case
    using Node.prems(1,3) by simp
qed

lemma BVH_intersect_node_tree:
  assumes "arena_tree spheres nds i tr"
  shows "BVH_intersect_node spheres nds (int i) ray lo hi tests
           = Some (tree_intersect spheres tr ray lo hi tests)"
  using assms
proof (induction tr arbitrary: i lo hi tests)
  case (Leaf s)
  then have "\<not> int (length spheres) \<le> s"
    by simp linarith
  with Leaf show ?case
    by (subst BVH_intersect_node.simps) (simp add: Let_def)
next
  case (Node l r)
  from Node.prems have a: "arena_tree spheres nds (i + 1) l"
    "arena_tree spheres nds (i + 1 + tree_size l) r"
    by simp_all
  have l: "BVH_intersect_node spheres nds (1 + int i) ray lo' hi' tests'
             = Some (tree_intersect spheres l ray lo' hi' tests')" for lo' hi' tests'
    using Node.IH(1) [OF a(1), of lo' hi' tests'] by (simp add: add.commute)
  have r: "BVH_intersect_node spheres nds (1 + (int i + int (tree_size l))) ray lo' hi' tests'
             = Some (tree_intersect spheres r ray lo' hi' tests')" for lo' hi' tests'
    using Node.IH(2) [OF a(2), of lo' hi' tests'] by (simp add: add.commute add.left_commute)
  from Node.prems show ?case
    by (subst BVH_intersect_node.simps) (simp add: Let_def l r)
qed

lemma tree_bbox_contains:
  assumes "s \<in> set (tree_leaves tr)"
  shows "AABB_contains (tree_bbox spheres tr) (Sphere_bounding_box (spheres ! nat s))"
  using assms
proof (induction tr)
  case (Leaf s')
  then show ?case by (simp add: AABB_contains_refl)
next
  case (Node l r)
  then consider "s \<in> set (tree_leaves l)" | "s \<in> set (tree_leaves r)"
    by auto
  then show ?case
  proof cases
    case 1
    from AABB_contains_trans [OF AABB_contains_merge_left Node.IH(1) [OF 1]]
    show ?thesis by simp
  next
    case 2
    from AABB_contains_trans [OF AABB_contains_merge_right Node.IH(2) [OF 2]]
    show ?thesis by simp
  qed
qed

text \<open>What the traversal returns is the hit of one of the leaves, in the interval.\<close>

lemma tree_intersect_source:
  assumes "fst (tree_intersect spheres tr ray lo hi tests) = Some rec"
  shows "\<exists>s \<in> set (tree_leaves tr). Sphere_intersect (spheres ! nat s) ray lo hi = Some rec"
  using assms
proof (induction tr arbitrary: hi tests rec)
  case (Leaf s)
  then show ?case by (simp split: if_splits)
next
  case (Node l r)
  define hl where "hl = tree_intersect spheres l ray lo hi (tests + 1)"
  define tc where "tc = (case fst hl of Some rec_left \<Rightarrow> t rec_left | None \<Rightarrow> hi)"
  define hr where "hr = tree_intersect spheres r ray lo tc (snd hl)"
  from Node.prems have res: "(case fst hr of Some rec_right \<Rightarrow> Some rec_right | None \<Rightarrow> fst hl) = Some rec"
    unfolding hr_def tc_def hl_def by (simp add: Let_def split: if_splits)
  have tc: "tc \<le> hi"
  proof (cases "fst hl")
    case None
    then show ?thesis by (simp add: tc_def)
  next
    case (Some rl)
    from Node.IH(1) [OF Some [unfolded hl_def]] obtain s where
      "Sphere_intersect (spheres ! nat s) ray lo hi = Some rl"
      by auto
    from Sphere_intersect_bounds [OF this] Some show ?thesis by (simp add: tc_def)
  qed
  show ?case
  proof (cases "fst hr")
    case None
    with res have "fst hl = Some rec" by simp
    from Node.IH(1) [OF this [unfolded hl_def]] show ?thesis by auto
  next
    case (Some rr)
    with res have "fst hr = Some rec" by simp
    from Node.IH(2) [OF this [unfolded hr_def]] obtain s where
      s: "s \<in> set (tree_leaves r)" "Sphere_intersect (spheres ! nat s) ray lo tc = Some rec"
      by auto
    from Sphere_intersect_widen [OF s(2) tc] s(1) show ?thesis
      by (intro bexI [of _ s]) simp_all
  qed
qed

lemma tree_intersect_bound:
  assumes "fst (tree_intersect spheres tr ray lo hi tests) = Some rec"
  shows "t rec \<le> hi"
proof -
  from tree_intersect_source [OF assms] obtain s where
    "Sphere_intersect (spheres ! nat s) ray lo hi = Some rec"
    by auto
  from Sphere_intersect_bounds [OF this] show ?thesis by simp
qed

text \<open>
  A leaf whose sphere is hit strictly inside the interval makes the traversal return a
  hit that is no farther.
\<close>

lemma tree_intersect_nearest:
  assumes "s \<in> set (tree_leaves tr)"
    and "Sphere_intersect (spheres ! nat s) ray lo hi = Some rec"
    and "lo < t rec" and "t rec < hi"
    and "\<forall>s' \<in> set (tree_leaves tr). 0 < radius (spheres ! nat s')"
    and "direction ray \<noteq> Vec3_new 0 0 0"
  shows "\<exists>rec'. fst (tree_intersect spheres tr ray lo hi tests) = Some rec' \<and> t rec' \<le> t rec"
  using assms
proof (induction tr arbitrary: hi tests)
  case (Leaf s')
  then have "AABB_intersect (Sphere_bounding_box (spheres ! nat s)) ray lo hi"
    by (intro Sphere_hit_passes_box [of _ _ _ _ rec]) simp_all
  with Leaf show ?case by simp
next
  case (Node l r)
  define hl where "hl = tree_intersect spheres l ray lo hi (tests + 1)"
  define tc where "tc = (case fst hl of Some rec_left \<Rightarrow> t rec_left | None \<Rightarrow> hi)"
  define hr where "hr = tree_intersect spheres r ray lo tc (snd hl)"
  have "AABB_intersect (Sphere_bounding_box (spheres ! nat s)) ray lo hi"
    using Node.prems by (intro Sphere_hit_passes_box [of _ _ _ _ rec]) simp_all
  then have "AABB_intersect (tree_bbox spheres (Node l r)) ray lo hi"
    using AABB_intersect_contains tree_bbox_contains [OF Node.prems(1)] by blast
  then have res: "fst (tree_intersect spheres (Node l r) ray lo hi tests)
      = (case fst hr of Some rec_right \<Rightarrow> Some rec_right | None \<Rightarrow> fst hl)"
    unfolding hr_def tc_def hl_def by (simp add: Let_def)
  have rad: "\<forall>s' \<in> set (tree_leaves l). 0 < radius (spheres ! nat s')"
    "\<forall>s' \<in> set (tree_leaves r). 0 < radius (spheres ! nat s')"
    using Node.prems(5) by simp_all
  have right_le: "t rr \<le> tc" if "fst hr = Some rr" for rr
    using tree_intersect_bound [OF that [unfolded hr_def]] .
  have right_le': "\<exists>rec'. (case fst hr of Some rec_right \<Rightarrow> Some rec_right | None \<Rightarrow> Some rl) = Some rec'
      \<and> t rec' \<le> t rec" if "tc = t rl" "t rl \<le> t rec" for rl
  proof (cases "fst hr")
    case None
    with that show ?thesis by simp
  next
    case (Some rr)
    with right_le [OF Some] that show ?thesis by simp
  qed
  from Node.prems(1) have "s \<in> set (tree_leaves l) \<or> s \<in> set (tree_leaves r)"
    by simp
  then show ?case
  proof
    assume 1: "s \<in> set (tree_leaves l)"
    from Node.IH(1) [OF 1 Node.prems(2-4) rad(1) Node.prems(6), of "tests + 1"]
    obtain rl where rl: "fst hl = Some rl" "t rl \<le> t rec"
      by (auto simp: hl_def)
    then have "tc = t rl" by (simp add: tc_def)
    from right_le' [OF this rl(2)] show ?thesis
      unfolding res rl(1) .
  next
    assume 2: "s \<in> set (tree_leaves r)"
    show ?thesis
    proof (cases "fst hl")
      case None
      then have "tc = hi" by (simp add: tc_def)
      with Node.IH(2) [OF 2 Node.prems(2-4) rad(2) Node.prems(6), of "snd hl"] None
      show ?thesis
        unfolding res by (auto simp: hr_def)
    next
      case (Some rl)
      then have tc: "tc = t rl" by (simp add: tc_def)
      show ?thesis
      proof (cases "t rec < t rl")
        case True
        have "t rl \<le> hi"
          using tree_intersect_bound [OF Some [unfolded hl_def]] .
        with True have "Sphere_intersect (spheres ! nat s) ray lo (t rl) = Some rec"
          using Sphere_intersect_shrink [OF Node.prems(2), of "t rl"] by simp
        from Node.IH(2) [OF 2 this Node.prems(3) True rad(2) Node.prems(6), of "snd hl"]
        show ?thesis
          unfolding res by (auto simp: hr_def tc)
      next
        case False
        then have "t rl \<le> t rec" by simp
        from right_le' [OF tc this] show ?thesis
          unfolding res Some .
      qed
    qed
  qed
qed

subsection \<open>Ranges of the index vector\<close>

lemma slice_drop_take: "slice xs a b = drop a (take b xs)"
  by (simp add: slice_def drop_take)

lemma length_slice: "b \<le> length xs \<Longrightarrow> length (slice xs a b) = b - a"
  by (simp add: slice_def)

lemma slice_append:
  assumes "a \<le> b" and "b \<le> c"
  shows "slice xs a c = slice xs a b @ slice xs b c"
proof -
  have "c - a = (b - a) + (c - b)"
    using assms by simp
  then have "take (c - a) (drop a xs) = take (b - a) (drop a xs) @ take (c - b) (drop (b - a) (drop a xs))"
    by (simp only: take_add)
  with assms show ?thesis
    by (simp add: slice_def)
qed

lemma slice_single: "a < length xs \<Longrightarrow> slice xs a (Suc a) = [xs ! a]"
  by (simp add: slice_def take_Suc_conv_app_nth [of 0] Cons_nth_drop_Suc [symmetric])

lemma list_split3:
  assumes "a \<le> b"
  shows "xs = take a xs @ slice xs a b @ drop b xs"
proof -
  have "drop a xs = take (b - a) (drop a xs) @ drop (b - a) (drop a xs)"
    by (simp only: append_take_drop_id)
  also have "drop (b - a) (drop a xs) = drop b xs"
    using assms by simp
  finally have "take a xs @ drop a xs = take a xs @ slice xs a b @ drop b xs"
    by (simp add: slice_def)
  then show ?thesis by simp
qed

lemma range_perm_refl: "range_perm xs xs a b"
  by (simp add: range_perm_def)

lemma range_perm_trans: "range_perm xs ys a b \<Longrightarrow> range_perm ys zs a b \<Longrightarrow> range_perm xs zs a b"
  by (simp add: range_perm_def)

lemma range_perm_mset:
  assumes "range_perm xs ys a b" and "a \<le> b"
  shows "mset ys = mset xs"
proof -
  have "mset ys = mset (take a ys) + mset (slice ys a b) + mset (drop b ys)"
    using list_split3 [OF assms(2), of ys] by (metis mset_append add.assoc)
  also have "\<dots> = mset (take a xs) + mset (slice xs a b) + mset (drop b xs)"
    using assms(1) by (simp add: range_perm_def)
  also have "\<dots> = mset xs"
    using list_split3 [OF assms(2), of xs] by (metis mset_append add.assoc)
  finally show ?thesis .
qed

lemma range_perm_slice_right:
  assumes "range_perm xs ys a b" and "b \<le> c"
  shows "slice ys c d = slice xs c d"
proof -
  from assms have "drop c ys = drop c xs"
    by (metis range_perm_def drop_drop le_add_diff_inverse2)
  then show ?thesis by (simp add: slice_def)
qed

lemma range_perm_slice_left:
  assumes "range_perm xs ys a b" and "d \<le> a"
  shows "slice ys c d = slice xs c d"
proof -
  from assms have "take d ys = take d xs"
    by (metis range_perm_def take_take min.absorb1)
  then show ?thesis by (simp add: slice_drop_take)
qed

lemma range_perm_widen:
  assumes p: "range_perm xs ys a b" and "c \<le> a" and "a \<le> b" and "b \<le> d"
  shows "range_perm xs ys c d"
proof -
  from p assms(2) have t: "take c ys = take c xs"
    by (metis range_perm_def take_take min.absorb1)
  from p assms(4) have d: "drop d ys = drop d xs"
    by (metis range_perm_def drop_drop le_add_diff_inverse2)
  have "slice ys c d = slice ys c a @ slice ys a b @ slice ys b d"
    using assms(2-4) slice_append [of c a d ys] slice_append [of a b d ys] by simp
  moreover have "slice xs c d = slice xs c a @ slice xs a b @ slice xs b d"
    using assms(2-4) slice_append [of c a d xs] slice_append [of a b d xs] by simp
  moreover have "slice ys c a = slice xs c a"
    using range_perm_slice_left [OF p order_refl] .
  moreover have "slice ys b d = slice xs b d"
    using range_perm_slice_right [OF p order_refl] .
  ultimately have "mset (slice ys c d) = mset (slice xs c d)"
    using p by (simp add: range_perm_def)
  with t d p show ?thesis by (simp add: range_perm_def)
qed

lemma range_perm_replace:
  assumes "mset ys = mset (slice xs a b)" and "a \<le> b" and "b \<le> length xs"
  shows "range_perm xs (replace_slice xs a b ys) a b"
proof -
  have len: "length ys = b - a"
    using mset_eq_length [OF assms(1)] assms(3) by (simp add: length_slice)
  with assms(2,3) have "slice (replace_slice xs a b ys) a b = ys"
    by (simp add: slice_def replace_slice_def)
  moreover have "take a (replace_slice xs a b ys) = take a xs"
    using assms(2,3) by (simp add: replace_slice_def)
  moreover have "drop b (replace_slice xs a b ys) = drop b xs"
    using assms(2,3) len by (simp add: replace_slice_def)
  moreover have "length (replace_slice xs a b ys) = length xs"
    using assms(2,3) len by (simp add: replace_slice_def)
  ultimately show ?thesis
    using assms(1) by (simp add: range_perm_def)
qed

subsection \<open>The split always returns\<close>

lemma centroid_bounds_acc:
  "Vec3_idx (min_pt (centroid_bounds spheres es cb)) i \<le> Vec3_idx (min_pt cb) i \<and>
   Vec3_idx (max_pt cb) i \<le> Vec3_idx (max_pt (centroid_bounds spheres es cb)) i"
proof (induction es arbitrary: cb)
  case Nil
  then show ?case by simp
next
  case (Cons k es)
  define cb' where "cb' = \<lparr>min_pt = Vec3_new (min (x (min_pt cb)) (x (center (spheres ! nat k))))
                               (min (y (min_pt cb)) (y (center (spheres ! nat k))))
                               (min (z (min_pt cb)) (z (center (spheres ! nat k)))),
            max_pt = Vec3_new (max (x (max_pt cb)) (x (center (spheres ! nat k))))
                               (max (y (max_pt cb)) (y (center (spheres ! nat k))))
                               (max (z (max_pt cb)) (z (center (spheres ! nat k))))\<rparr>"
  have "Vec3_idx (min_pt cb') i \<le> Vec3_idx (min_pt cb) i"
    "Vec3_idx (max_pt cb) i \<le> Vec3_idx (max_pt cb') i"
    by (simp_all add: cb'_def Vec3_idx_def)
  with Cons.IH [of cb'] show ?case
    by (simp add: Let_def cb'_def [symmetric])
qed

lemma centroid_bounds_elem:
  assumes "k \<in> set es"
  shows "Vec3_idx (min_pt (centroid_bounds spheres es cb)) i \<le> Vec3_idx (center (spheres ! nat k)) i \<and>
         Vec3_idx (center (spheres ! nat k)) i \<le> Vec3_idx (max_pt (centroid_bounds spheres es cb)) i"
  using assms
proof (induction es arbitrary: cb)
  case Nil
  then show ?case by simp
next
  case (Cons k' es)
  define cb' where "cb' = \<lparr>min_pt = Vec3_new (min (x (min_pt cb)) (x (center (spheres ! nat k'))))
                               (min (y (min_pt cb)) (y (center (spheres ! nat k'))))
                               (min (z (min_pt cb)) (z (center (spheres ! nat k')))),
            max_pt = Vec3_new (max (x (max_pt cb)) (x (center (spheres ! nat k'))))
                               (max (y (max_pt cb)) (y (center (spheres ! nat k'))))
                               (max (z (max_pt cb)) (z (center (spheres ! nat k'))))\<rparr>"
  have step: "centroid_bounds spheres (k' # es) cb = centroid_bounds spheres es cb'"
    by (simp add: Let_def cb'_def)
  show ?case
  proof (cases "k \<in> set es")
    case True
    from Cons.IH [OF True, of cb'] show ?thesis
      unfolding step .
  next
    case False
    with Cons.prems have "k = k'" by simp
    then have "Vec3_idx (min_pt cb') i \<le> Vec3_idx (center (spheres ! nat k)) i"
      "Vec3_idx (center (spheres ! nat k)) i \<le> Vec3_idx (max_pt cb') i"
      by (simp_all add: cb'_def Vec3_idx_def)
    with centroid_bounds_acc [of spheres es cb' i] show ?thesis
      unfolding step by linarith
  qed
qed

lemma to_int_bucket:
  assumes "0 \<le> v" and "v \<le> 12"
  shows "\<exists>b. to_int v = Some b \<and> 0 \<le> b"
proof -
  have "0 \<le> \<lfloor>v\<rfloor>" "\<lfloor>v\<rfloor> \<le> 12"
    using assms by (simp_all add: floor_le_iff)
  with assms(1) show ?thesis
    by (simp add: to_int_def Let_def)
qed

lemma fill_buckets_Some:
  assumes "\<forall>k \<in> set es. Vec3_idx (min_pt cb) axis \<le> Vec3_idx (center (spheres ! nat k)) axis \<and>
             Vec3_idx (center (spheres ! nat k)) axis \<le> Vec3_idx (min_pt cb) axis + extent"
    and "0 < extent"
  shows "\<exists>bs. fill_buckets spheres axis cb extent es buckets = Some bs"
  using assms
proof (induction es arbitrary: buckets)
  case Nil
  then show ?case by simp
next
  case (Cons k es)
  define v where "v = real NUM_BUCKETS * (Vec3_idx (center (spheres ! nat k)) axis
                        - Vec3_idx (min_pt cb) axis) / extent"
  from Cons.prems have c: "0 \<le> Vec3_idx (center (spheres ! nat k)) axis - Vec3_idx (min_pt cb) axis"
    "Vec3_idx (center (spheres ! nat k)) axis - Vec3_idx (min_pt cb) axis \<le> extent"
    by auto
  have "0 \<le> v"
    using c(1) Cons.prems(2) by (simp add: v_def NUM_BUCKETS_def)
  moreover have "v \<le> 12"
    using c(2) Cons.prems(2) by (simp add: v_def NUM_BUCKETS_def field_simps)
  ultimately obtain b where b: "to_int v = Some b" "0 \<le> b"
    using to_int_bucket by blast
  have "\<exists>bs. fill_buckets spheres axis cb extent es buckets' = Some bs" for buckets'
    using Cons.IH [of buckets'] Cons.prems by simp
  then show ?case
    unfolding fill_buckets.simps Let_def v_def [symmetric] b(1) using b(2)
    by (simp add: NUM_BUCKETS_def)
qed

lemma BVH_sah_split_perm:
  assumes srt: "std_sort_spec srt" and prt: "std_partition_spec prt"
    and range: "start \<le> end" "end \<le> length indices"
    and bounds: "\<forall>k \<in> set (slice indices start end).
        Vec3_idx (min_pt cb) axis \<le> Vec3_idx (center (spheres ! nat k)) axis \<and>
        Vec3_idx (center (spheres ! nat k)) axis \<le> Vec3_idx (max_pt cb) axis"
  shows "\<exists>indices' mid. BVH_sah_split srt prt spheres indices start end axis cb = Some (indices', mid)
           \<and> range_perm indices indices' start end"
proof (cases "end - start \<le> 4")
  case True
  define cmp where "cmp = (\<lambda>a b. Vec3_idx (center (spheres ! nat a)) axis
                                < Vec3_idx (center (spheres ! nat b)) axis)"
  have "mset (srt (\<lambda>a b. f a < f b) xs) = mset xs" for f :: "int \<Rightarrow> real" and xs
    using srt unfolding std_sort_spec_def by blast
  from this [of "\<lambda>a. Vec3_idx (center (spheres ! nat a)) axis" "slice indices start end"]
  have "mset (srt cmp (slice indices start end)) = mset (slice indices start end)"
    by (simp add: cmp_def)
  from range_perm_replace [OF this range] True show ?thesis
    by (simp add: BVH_sah_split_def Let_def cmp_def)
next
  case False
  define extent where "extent = Vec3_idx (max_pt cb) axis - Vec3_idx (min_pt cb) axis"
  show ?thesis
  proof (cases "extent < 1 / 10 ^ 10")
    case True
    with False show ?thesis
      by (simp add: BVH_sah_split_def Let_def extent_def range_perm_refl)
  next
    case far: False
    then have pos: "0 < extent"
      by (simp add: not_less)
    from bounds have "\<forall>k \<in> set (slice indices start end).
        Vec3_idx (min_pt cb) axis \<le> Vec3_idx (center (spheres ! nat k)) axis \<and>
        Vec3_idx (center (spheres ! nat k)) axis \<le> Vec3_idx (min_pt cb) axis + extent"
      by (simp add: extent_def)
    from fill_buckets_Some [OF this pos, of "replicate NUM_BUCKETS Bucket_new"] obtain bs where
      "fill_buckets spheres axis cb extent (slice indices start end)
         (replicate NUM_BUCKETS Bucket_new) = Some bs"
      by blast
    then obtain split_val where
      sv: "sah_split_val spheres (slice indices start end) axis cb = Some split_val"
      by (simp add: sah_split_val_def Let_def extent_def)
    define pred where "pred = (\<lambda>idx. Vec3_idx (center (spheres ! nat idx)) axis < split_val)"
    have "mset (prt P xs) = mset xs" for P xs
      using prt unfolding std_partition_spec_def by blast
    then have "mset (prt pred (slice indices start end)) = mset (slice indices start end)" .
    from range_perm_replace [OF this range] False far sv show ?thesis
      by (simp add: BVH_sah_split_def Let_def extent_def pred_def)
  qed
qed

subsection \<open>What the builder builds\<close>

lemma set_slice_subset: "set (slice xs a b) \<subseteq> set xs"
  unfolding slice_def using set_take_subset set_drop_subset by fast

lemma BVH_build_tree:
  assumes srt: "std_sort_spec srt" and prt: "std_partition_spec prt"
    and range: "start < end" "end \<le> length indices"
    and valid: "\<forall>k \<in> set indices. 0 \<le> k \<and> nat k < length spheres"
  shows "\<exists>tr nds' indices'.
           BVH_build srt prt spheres (nds, indices) start end = Some ((nds', indices'), length nds) \<and>
           length nds' = length nds + tree_size tr \<and> take (length nds) nds' = nds \<and>
           arena_tree spheres nds' (length nds) tr \<and>
           mset (tree_leaves tr) = mset (slice indices start end) \<and>
           range_perm indices indices' start end"
  using range valid
proof (induction "end - start" arbitrary: nds indices start "end" rule: less_induct)
  case less
  note range = less.prems(1,2) and valid = less.prems(3)
  define n where "n = length nds"
  have guard: "list_all (\<lambda>k. 0 \<le> k \<and> nat k < length spheres) (slice indices start end)"
    using valid set_slice_subset [of indices start "end"] by (auto simp: list_all_iff)
  show ?case
  proof (cases "end - start = 1")
    case True
    then have e: "end = Suc start" by simp
    then have st: "start < length indices" using range by simp
    then have v: "0 \<le> indices ! start" "nat (indices ! start) < length spheres"
      using valid nth_mem by blast+
    have "BVH_build srt prt spheres (nds, indices) start end =
        Some ((nds @ [\<lparr>bbox = Sphere_bounding_box (spheres ! nat (indices ! start)),
                        left = - 1, right = - 1, sphere_idx = indices ! start, is_leaf = True\<rparr>],
               indices), length nds)"
      using range guard True
      by (subst BVH_build.simps) (simp add: Let_def BVHNode_new_def)
    moreover have "arena_tree spheres
        (nds @ [\<lparr>bbox = Sphere_bounding_box (spheres ! nat (indices ! start)),
                  left = - 1, right = - 1, sphere_idx = indices ! start, is_leaf = True\<rparr>])
        (length nds) (Leaf (indices ! start))"
      using v by simp
    moreover have "mset (tree_leaves (Leaf (indices ! start))) = mset (slice indices start end)"
      using st by (simp add: e slice_single)
    moreover note range_perm_refl [of indices start "end"]
    ultimately show ?thesis
      by (intro exI [of _ "Leaf (indices ! start)"]
          exI [of _ "nds @ [\<lparr>bbox = Sphere_bounding_box (spheres ! nat (indices ! start)),
                        left = - 1, right = - 1, sphere_idx = indices ! start, is_leaf = True\<rparr>]"]
          exI [of _ indices]) simp
  next
    case False
    with range have two: "start + 2 \<le> end" by simp
    define cb where "cb = centroid_bounds spheres (slice indices start end) AABB_empty"
    define axis where "axis = split_axis cb"
    have "\<forall>k \<in> set (slice indices start end).
        Vec3_idx (min_pt cb) axis \<le> Vec3_idx (center (spheres ! nat k)) axis \<and>
        Vec3_idx (center (spheres ! nat k)) axis \<le> Vec3_idx (max_pt cb) axis"
      unfolding cb_def using centroid_bounds_elem by blast
    from BVH_sah_split_perm [OF srt prt _ range(2) this] range(1)
    obtain ind1 mid where split: "BVH_sah_split srt prt spheres indices start end axis cb = Some (ind1, mid)"
      and p1: "range_perm indices ind1 start end"
      by auto
    from BVH_sah_split_mid [OF split two] have mid: "start < mid" "mid < end"
      by simp_all
    have len1: "length ind1 = length indices"
      using p1 by (simp add: range_perm_def)
    have set1: "set ind1 = set indices"
      using mset_eq_setD [OF range_perm_mset [OF p1 less_imp_le [OF range(1)]]] .
    \<comment> \<open>the left subtree\<close>
    have "mid - start < end - start" using mid by simp
    from less.hyps [OF this mid(1), of ind1 "nds @ [BVHNode_new]"] mid(2) range(2) valid
    obtain tl ndsL ind2 where
      bl: "BVH_build srt prt spheres (nds @ [BVHNode_new], ind1) start mid = Some ((ndsL, ind2), Suc n)"
      and lenL: "length ndsL = Suc n + tree_size tl"
      and takeL: "take (Suc n) ndsL = nds @ [BVHNode_new]"
      and arenaL: "arena_tree spheres ndsL (Suc n) tl"
      and leavesL: "mset (tree_leaves tl) = mset (slice ind1 start mid)"
      and p2: "range_perm ind1 ind2 start mid"
      by (auto simp: len1 set1 n_def)
    have len2: "length ind2 = length indices"
      using p2 len1 by (simp add: range_perm_def)
    have set2: "set ind2 = set indices"
      using mset_eq_setD [OF range_perm_mset [OF p2 less_imp_le [OF mid(1)]]] set1 by simp
    \<comment> \<open>the right subtree\<close>
    have "end - mid < end - start" using mid by simp
    from less.hyps [OF this mid(2), of ind2 ndsL] range(2) valid
    obtain t_r ndsR ind3 where
      br: "BVH_build srt prt spheres (ndsL, ind2) mid end = Some ((ndsR, ind3), length ndsL)"
      and lenR: "length ndsR = length ndsL + tree_size t_r"
      and takeR: "take (length ndsL) ndsR = ndsL"
      and arenaR: "arena_tree spheres ndsR (length ndsL) t_r"
      and leavesR: "mset (tree_leaves t_r) = mset (slice ind2 mid end)"
      and p3: "range_perm ind2 ind3 mid end"
      by (auto simp: len2 set2)
    \<comment> \<open>the node itself\<close>
    have nthR: "ndsR ! p = ndsL ! p" if "p < length ndsL" for p
      using that nth_take [of p "length ndsL" ndsR] takeR by simp
    have "ndsL ! n = take (Suc n) ndsL ! n"
      by simp
    also have "\<dots> = (nds @ [BVHNode_new]) ! n"
      by (simp only: takeL)
    finally have "ndsL ! n = BVHNode_new"
      by (simp add: n_def)
    then have root0: "ndsR ! n = BVHNode_new"
      using nthR [of n] lenL by simp
    have arenaL': "arena_tree spheres ndsR (Suc n) tl"
      using lenL lenR nthR by (intro arena_tree_cong [OF arenaL]) simp_all
    define rootn where "rootn = \<lparr>bbox = AABB_merge (tree_bbox spheres tl) (tree_bbox spheres t_r),
        left = int (n + 1), right = int (n + 1 + tree_size tl), sphere_idx = - 1,
        is_leaf = False\<rparr>"
    have res: "BVH_build srt prt spheres (nds, indices) start end =
        Some ((ndsR[n := rootn], ind3), n)"
      using range guard False split bl br root0 lenL
        arena_tree_bbox [OF arenaL'] arena_tree_bbox [OF arenaR]
      by (subst BVH_build.simps)
        (simp add: Let_def cb_def [symmetric] axis_def [symmetric] n_def [symmetric]
          rootn_def BVHNode_new_def)
    have "arena_tree spheres (ndsR[n := rootn]) (n + 1) tl"
      by (rule arena_tree_cong [OF arenaL' [unfolded Suc_eq_plus1]]) simp_all
    moreover have "arena_tree spheres (ndsR[n := rootn]) (n + 1 + tree_size tl) t_r"
    proof -
      have "length ndsL = n + 1 + tree_size tl"
        using lenL by simp
      with arenaR have "arena_tree spheres ndsR (n + 1 + tree_size tl) t_r"
        by simp
      then show ?thesis
        by (rule arena_tree_cong) simp_all
    qed
    ultimately have arena: "arena_tree spheres (ndsR[n := rootn]) n (Node tl t_r)"
      using lenL lenR by (simp add: rootn_def)
    have "take n ndsR = take n (take (length ndsL) ndsR)"
      using lenL by (simp add: min_def)
    also have "\<dots> = take n (take (Suc n) ndsL)"
      by (simp add: takeR)
    also have "\<dots> = nds"
      by (simp only: takeL) (simp add: n_def)
    finally have tk: "take n (ndsR[n := rootn]) = nds"
      by simp
    have "slice ind2 mid end = slice ind1 mid end"
      using range_perm_slice_right [OF p2 order_refl] .
    then have "mset (tree_leaves (Node tl t_r)) = mset (slice ind1 start end)"
      using leavesL leavesR mid slice_append [of start mid "end" ind1] by simp
    then have leaves: "mset (tree_leaves (Node tl t_r)) = mset (slice indices start end)"
      using p1 by (simp add: range_perm_def)
    have "range_perm ind1 ind2 start end"
      using range_perm_widen [OF p2, of start "end"] mid by simp
    moreover have "range_perm ind2 ind3 start end"
      using range_perm_widen [OF p3, of start "end"] mid by simp
    ultimately have perm: "range_perm indices ind3 start end"
      using p1 range_perm_trans by blast
    have "length (ndsR[n := rootn]) = n + tree_size (Node tl t_r)"
      using lenL lenR by simp
    with res arena tk leaves perm show ?thesis
      unfolding n_def [symmetric] by blast
  qed
qed

subsection \<open>The library algorithms of the model meet their specification\<close>

lemma mset_insert_by: "mset (insert_by cmp a bs) = add_mset a (mset bs)"
  by (induction bs) simp_all

lemma mset_insertion_sort: "mset (insertion_sort cmp xs) = mset xs"
  by (induction xs) (simp_all add: mset_insert_by)

lemma set_insert_by: "set (insert_by cmp a bs) = insert a (set bs)"
  by (induction bs) auto

lemma sorted_insert_by:
  fixes f :: "int \<Rightarrow> real"
  assumes "sorted (map f bs)"
  shows "sorted (map f (insert_by (\<lambda>a b. f a < f b) a bs))"
  using assms by (induction bs) (auto simp: set_insert_by)

lemma sorted_insertion_sort:
  fixes f :: "int \<Rightarrow> real"
  shows "sorted (map f (insertion_sort (\<lambda>a b. f a < f b) xs))"
  by (induction xs) (simp_all add: sorted_insert_by)

lemma insertion_sort_spec: "std_sort_spec insertion_sort"
  unfolding std_sort_spec_def by (simp add: mset_insertion_sort sorted_insertion_sort)

lemma stable_partition_spec: "std_partition_spec stable_partition"
  unfolding std_partition_spec_def by (simp add: stable_partition_def list_all_iff)

subsection \<open>The arena after construction\<close>

lemma BVH_new_tree:
  assumes "std_sort_spec srt" and "std_partition_spec prt" and "spheres \<noteq> []"
  shows "\<exists>tr nds. BVH_new srt prt spheres = Some \<lparr>nodes = nds, bvh_intersection_tests = 0\<rparr> \<and>
           length nds = tree_size tr \<and> arena_tree spheres nds 0 tr \<and>
           mset (tree_leaves tr) = mset (map int [0 ..< length spheres])"
proof -
  define indices where "indices = map int [0 ..< length spheres]"
  have "0 < length indices" "length indices \<le> length indices"
    using assms(3) by (simp_all add: indices_def)
  moreover have "\<forall>k \<in> set indices. 0 \<le> k \<and> nat k < length spheres"
    by (auto simp: indices_def)
  ultimately obtain tr nds' indices' where
    b: "BVH_build srt prt spheres ([], indices) 0 (length indices) = Some ((nds', indices'), length ([] :: BVHNode list))"
    and l: "length nds' = length ([] :: BVHNode list) + tree_size tr"
    and a: "arena_tree spheres nds' (length ([] :: BVHNode list)) tr"
    and m: "mset (tree_leaves tr) = mset (slice indices 0 (length indices))"
    using BVH_build_tree [OF assms(1,2), of 0 "length indices" indices spheres "[]"] by blast
  from b assms(3) have "BVH_new srt prt spheres = Some \<lparr>nodes = nds', bvh_intersection_tests = 0\<rparr>"
    by (simp add: BVH_new_def Let_def indices_def [symmetric])
  with l a m show ?thesis
    by (auto simp: slice_def indices_def)
qed

lemma tree_leaves_nonempty: "tree_leaves tr \<noteq> []"
  by (induction tr) simp_all

lemma tree_size_leaves: "tree_size tr = 2 * length (tree_leaves tr) - 1"
proof (induction tr)
  case (Leaf s)
  then show ?case by simp
next
  case (Node l r)
  have pos: "0 < length (tree_leaves l)" "0 < length (tree_leaves r)"
    using tree_leaves_nonempty by simp_all
  have "tree_size (Node l r) = 1 + tree_size l + tree_size r"
    by simp
  also have "\<dots> = 1 + (2 * length (tree_leaves l) - 1) + (2 * length (tree_leaves r) - 1)"
    by (simp only: Node)
  also have "\<dots> = 2 * (length (tree_leaves l) + length (tree_leaves r)) - 1"
    using pos by arith
  finally show ?case by simp
qed

lemma arena_tree_node_ok:
  assumes "arena_tree spheres nds i tr" and "i \<le> p" and "p < i + tree_size tr"
  shows "node_ok spheres nds (nds ! p)"
  using assms
proof (induction tr arbitrary: i)
  case (Leaf s)
  then have "p = i" by simp
  with Leaf show ?case by (simp add: node_ok_def)
next
  case (Node l r)
  from Node.prems(1) have a: "arena_tree spheres nds (i + 1) l"
    "arena_tree spheres nds (i + 1 + tree_size l) r"
    by simp_all
  consider "p = i" | "i + 1 \<le> p" "p < i + 1 + tree_size l"
    | "i + 1 + tree_size l \<le> p" "p < i + 1 + tree_size l + tree_size r"
    using Node.prems(2,3) by fastforce
  then show ?case
  proof cases
    case 1
    have "i + 1 + tree_size l + tree_size r \<le> length nds"
      using arena_tree_bounds [OF a(2)] by simp
    moreover have "0 < tree_size l" "0 < tree_size r"
      by (simp_all add: tree_size_pos)
    ultimately show ?thesis
      using Node.prems(1) arena_tree_bbox [OF a(1)] arena_tree_bbox [OF a(2)] 1
      by (simp add: node_ok_def nat_add_distrib)
  next
    case 2
    from Node.IH(1) [OF a(1) 2] show ?thesis .
  next
    case 3
    from Node.IH(2) [OF a(2) 3(1)] 3(2) show ?thesis by simp
  qed
qed

lemma arena_tree_leaves:
  assumes "arena_tree spheres nds i tr"
  shows "map sphere_idx (filter is_leaf (slice nds i (i + tree_size tr))) = tree_leaves tr"
  using assms
proof (induction tr arbitrary: i)
  case (Leaf s)
  then show ?case
    by (simp add: slice_single)
next
  case (Node l r)
  from Node.prems have a: "arena_tree spheres nds (i + 1) l"
    "arena_tree spheres nds (i + 1 + tree_size l) r"
    and root: "i < length nds" "\<not> is_leaf (nds ! i)"
    by simp_all
  have "slice nds i (i + tree_size (Node l r)) =
      slice nds i (i + 1) @ slice nds (i + 1) (i + 1 + tree_size l)
        @ slice nds (i + 1 + tree_size l) (i + 1 + tree_size l + tree_size r)"
    using slice_append [of i "i + 1" "i + tree_size (Node l r)" nds]
      slice_append [of "i + 1" "i + 1 + tree_size l" "i + tree_size (Node l r)" nds]
    by (simp add: add.assoc)
  moreover have "slice nds i (i + 1) = [nds ! i]"
    using slice_single [OF root(1)] by simp
  ultimately show ?case
    using Node.IH(1) [OF a(1)] Node.IH(2) [OF a(2)] root(2) by simp
qed

subsection \<open>Claims about the arena\<close>

lemma example_BVH:
  "BVH_new insertion_sort stable_partition [example_sphere 5 0 0 1, example_sphere 0 0 0 1] =
     Some \<lparr>nodes =
       [\<lparr>bbox = \<lparr>min_pt = Vec3_new (- 1) (- 1) (- 1), max_pt = Vec3_new 6 1 1\<rparr>,
          left = 1, right = 2, sphere_idx = - 1, is_leaf = False\<rparr>,
        \<lparr>bbox = \<lparr>min_pt = Vec3_new (- 1) (- 1) (- 1), max_pt = Vec3_new 1 1 1\<rparr>,
          left = - 1, right = - 1, sphere_idx = 1, is_leaf = True\<rparr>,
        \<lparr>bbox = \<lparr>min_pt = Vec3_new 4 (- 1) (- 1), max_pt = Vec3_new 6 1 1\<rparr>,
          left = - 1, right = - 1, sphere_idx = 0, is_leaf = True\<rparr>],
       bvh_intersection_tests = 0\<rparr>"
  by (simp add: BVH_new_def BVH_build.simps slice_def replace_slice_def example_sphere_def
      Sphere_bounding_box_def Vec3_new_def Vec3_sub_def Vec3_add_def BVHNode_new_def AABB_new_def
      Let_def BVH_sah_split_def Vec3_idx_def split_axis_def AABB_empty_def AABB_merge_def upt_rec
      numeral_2_eq_2)

text \<open>
  Claim C2: after the construction from a non-empty list of spheres, for every node of
  the arena: the box of a leaf is the bounding box of the sphere it holds; the box of an
  inner node is the merge of the boxes of its two children, which are nodes of the arena,
  and it contains both of them.
\<close>

theorem BVH_build_boxes:
  assumes "std_sort_spec srt" and "std_partition_spec prt"
    and "spheres \<noteq> []" and "\<forall>s \<in> set spheres. 0 < radius s"
  shows "\<exists>bvh. BVH_new srt prt spheres = Some bvh \<and>
     (\<forall>i < length (nodes bvh).
        (let nd = nodes bvh ! i in
         if is_leaf nd then
           0 \<le> sphere_idx nd \<and> nat (sphere_idx nd) < length spheres \<and>
           bbox nd = Sphere_bounding_box (spheres ! nat (sphere_idx nd))
         else
           0 \<le> left nd \<and> nat (left nd) < length (nodes bvh) \<and>
           0 \<le> right nd \<and> nat (right nd) < length (nodes bvh) \<and>
           bbox nd = AABB_merge (bbox (nodes bvh ! nat (left nd))) (bbox (nodes bvh ! nat (right nd))) \<and>
           AABB_contains (bbox nd) (bbox (nodes bvh ! nat (left nd))) \<and>
           AABB_contains (bbox nd) (bbox (nodes bvh ! nat (right nd)))))"
proof -
  from BVH_new_tree [OF assms(1-3)] obtain tr nds where
    new: "BVH_new srt prt spheres = Some \<lparr>nodes = nds, bvh_intersection_tests = 0\<rparr>"
    and len: "length nds = tree_size tr" and arena: "arena_tree spheres nds 0 tr"
    by blast
  have "node_ok spheres nds (nds ! i)" if "i < length nds" for i
    using arena_tree_node_ok [OF arena, of i] that len by simp
  then have "\<forall>i < length nds.
        (let nd = nds ! i in
         if is_leaf nd then
           0 \<le> sphere_idx nd \<and> nat (sphere_idx nd) < length spheres \<and>
           bbox nd = Sphere_bounding_box (spheres ! nat (sphere_idx nd))
         else
           0 \<le> left nd \<and> nat (left nd) < length nds \<and>
           0 \<le> right nd \<and> nat (right nd) < length nds \<and>
           bbox nd = AABB_merge (bbox (nds ! nat (left nd))) (bbox (nds ! nat (right nd))) \<and>
           AABB_contains (bbox nd) (bbox (nds ! nat (left nd))) \<and>
           AABB_contains (bbox nd) (bbox (nds ! nat (right nd))))"
    by (simp add: node_ok_def Let_def AABB_contains_merge_left AABB_contains_merge_right)
  note all_nodes = this
  define bvh0 where "bvh0 = \<lparr>nodes = nds, bvh_intersection_tests = 0\<rparr>"
  have sel: "nodes bvh0 = nds"
    by (simp add: bvh0_def)
  show ?thesis
  proof (intro exI [of _ bvh0] conjI)
    show "BVH_new srt prt spheres = Some bvh0"
      by (simp add: new bvh0_def)
  qed (unfold sel, fact all_nodes)
qed

theorem BVH_build_boxes_witness:
  "\<exists>bvh. BVH_new insertion_sort stable_partition [example_sphere 5 0 0 1, example_sphere 0 0 0 1]
            = Some bvh \<and>
     length (nodes bvh) = 3 \<and>
     bbox (nodes bvh ! 0) = AABB_merge (bbox (nodes bvh ! 1)) (bbox (nodes bvh ! 2)) \<and>
     AABB_contains (bbox (nodes bvh ! 0)) (bbox (nodes bvh ! 1)) \<and>
     AABB_contains (bbox (nodes bvh ! 0)) (bbox (nodes bvh ! 2))"
proof -
  have "\<forall>s \<in> set [example_sphere 5 0 0 1, example_sphere 0 0 0 1]. 0 < radius s"
    by (simp add: example_sphere_def)
  from BVH_build_boxes [OF insertion_sort_spec stable_partition_spec _ this]
  obtain bvh where
    b: "BVH_new insertion_sort stable_partition [example_sphere 5 0 0 1, example_sphere 0 0 0 1]
          = Some bvh"
    and "0 < length (nodes bvh) \<longrightarrow>
        (let nd = nodes bvh ! 0 in
         if is_leaf nd then
           0 \<le> sphere_idx nd \<and> nat (sphere_idx nd) < length [example_sphere 5 0 0 1, example_sphere 0 0 0 1] \<and>
           bbox nd = Sphere_bounding_box ([example_sphere 5 0 0 1, example_sphere 0 0 0 1] ! nat (sphere_idx nd))
         else
           0 \<le> left nd \<and> nat (left nd) < length (nodes bvh) \<and>
           0 \<le> right nd \<and> nat (right nd) < length (nodes bvh) \<and>
           bbox nd = AABB_merge (bbox (nodes bvh ! nat (left nd))) (bbox (nodes bvh ! nat (right nd))) \<and>
           AABB_contains (bbox nd) (bbox (nodes bvh ! nat (left nd))) \<and>
           AABB_contains (bbox nd) (bbox (nodes bvh ! nat (right nd))))"
    by blast
  moreover from b have "length (nodes bvh) = 3" "\<not> is_leaf (nodes bvh ! 0)"
    "left (nodes bvh ! 0) = 1" "right (nodes bvh ! 0) = 2"
    by (auto simp: example_BVH)
  ultimately show ?thesis
    by (intro exI [of _ bvh])
      (simp add: Let_def AABB_contains_merge_left AABB_contains_merge_right)
qed

text \<open>
  Claim C10: for a list of \<open>n > 0\<close> spheres the arena has \<open>2 * n - 1\<close> nodes; the two
  child indices of every inner node are indices of the arena and differ; every leaf
  holds the index of a sphere; and the sphere indices of the leaves are a permutation of
  \<open>0, \<dots>, n - 1\<close>.
\<close>

theorem BVH_build_shape:
  assumes "std_sort_spec srt" and "std_partition_spec prt"
    and "spheres \<noteq> []" and "\<forall>s \<in> set spheres. 0 < radius s"
  shows "\<exists>bvh. BVH_new srt prt spheres = Some bvh \<and>
     length (nodes bvh) = 2 * length spheres - 1 \<and>
     (\<forall>i < length (nodes bvh).
        (let nd = nodes bvh ! i in
         if is_leaf nd then 0 \<le> sphere_idx nd \<and> nat (sphere_idx nd) < length spheres
         else 0 \<le> left nd \<and> nat (left nd) < length (nodes bvh) \<and>
              0 \<le> right nd \<and> nat (right nd) < length (nodes bvh) \<and> left nd \<noteq> right nd)) \<and>
     mset (map sphere_idx (filter is_leaf (nodes bvh))) = mset (map int [0 ..< length spheres])"
proof -
  from BVH_new_tree [OF assms(1-3)] obtain tr nds where
    new: "BVH_new srt prt spheres = Some \<lparr>nodes = nds, bvh_intersection_tests = 0\<rparr>"
    and len: "length nds = tree_size tr" and arena: "arena_tree spheres nds 0 tr"
    and leaves: "mset (tree_leaves tr) = mset (map int [0 ..< length spheres])"
    by blast
  have "length (tree_leaves tr) = length spheres"
    using mset_eq_length [OF leaves] by simp
  then have n: "length nds = 2 * length spheres - 1"
    using len tree_size_leaves [of tr] by simp
  have "node_ok spheres nds (nds ! i)" if "i < length nds" for i
    using arena_tree_node_ok [OF arena, of i] that len by simp
  then have ok: "\<forall>i < length nds.
        (let nd = nds ! i in
         if is_leaf nd then 0 \<le> sphere_idx nd \<and> nat (sphere_idx nd) < length spheres
         else 0 \<le> left nd \<and> nat (left nd) < length nds \<and>
              0 \<le> right nd \<and> nat (right nd) < length nds \<and> left nd \<noteq> right nd)"
    by (simp add: node_ok_def Let_def)
  have "map sphere_idx (filter is_leaf nds) = tree_leaves tr"
    using arena_tree_leaves [OF arena] len by (simp add: slice_def)
  with leaves have "mset (map sphere_idx (filter is_leaf nds)) = mset (map int [0 ..< length spheres])"
    by simp
  note perm = this
  define bvh0 where "bvh0 = \<lparr>nodes = nds, bvh_intersection_tests = 0\<rparr>"
  have sel: "nodes bvh0 = nds"
    by (simp add: bvh0_def)
  show ?thesis
  proof (intro exI [of _ bvh0] conjI)
    show "BVH_new srt prt spheres = Some bvh0"
      by (simp add: new bvh0_def)
  qed (unfold sel, (fact n ok perm)+)
qed

theorem BVH_build_shape_witness:
  "\<exists>bvh. BVH_new insertion_sort stable_partition [example_sphere 5 0 0 1, example_sphere 0 0 0 1]
            = Some bvh \<and>
     length (nodes bvh) = 3 \<and>
     mset (map sphere_idx (filter is_leaf (nodes bvh))) = {#0, 1#}"
proof -
  have "\<forall>s \<in> set [example_sphere 5 0 0 1, example_sphere 0 0 0 1]. 0 < radius s"
    by (simp add: example_sphere_def)
  from BVH_build_shape [OF insertion_sort_spec stable_partition_spec _ this]
  obtain bvh where
    "BVH_new insertion_sort stable_partition [example_sphere 5 0 0 1, example_sphere 0 0 0 1]
          = Some bvh"
    "length (nodes bvh) = 2 * length [example_sphere 5 0 0 1, example_sphere 0 0 0 1] - 1"
    "mset (map sphere_idx (filter is_leaf (nodes bvh)))
       = mset (map int [0 ..< length [example_sphere 5 0 0 1, example_sphere 0 0 0 1]])"
    by blast
  then show ?thesis
    by (intro exI [of _ bvh]) (simp add: upt_rec numeral_2_eq_2)
qed

end
